theory Spec2Isabelle
  imports Main "HOL-Library.AList"
begin

section \<open>Python strings\<close>

text \<open>
  A Python \<open>str\<close> is a sequence of Unicode code points. Isabelle's \<open>char\<close> has 8 bits
  and cannot hold \<open>U+200B\<close>, which \<open>clean_value\<close> removes, so a string is modelled as
  the list of its code points. \<open>py\<close> reads an ASCII literal.
\<close>

type_synonym pystr = "nat list"

definition py :: "string \<Rightarrow> pystr" where
  "py s = map of_char s"

abbreviation TAB :: nat where "TAB \<equiv> 9"
abbreviation LF :: nat where "LF \<equiv> 10"
abbreviation CR :: nat where "CR \<equiv> 13"
abbreviation SPACE :: nat where "SPACE \<equiv> 32"
abbreviation BANG :: nat where "BANG \<equiv> 33"
abbreviation DQUOTE :: nat where "DQUOTE \<equiv> 34"
abbreviation AMP :: nat where "AMP \<equiv> 38"
abbreviation SQUOTE :: nat where "SQUOTE \<equiv> 39"
abbreviation DOT :: nat where "DOT \<equiv> 46"
abbreviation COLON :: nat where "COLON \<equiv> 58"
abbreviation LT :: nat where "LT \<equiv> 60"
abbreviation GT :: nat where "GT \<equiv> 62"
abbreviation AT :: nat where "AT \<equiv> 64"
abbreviation LBRACKET :: nat where "LBRACKET \<equiv> 91"
abbreviation RBRACKET :: nat where "RBRACKET \<equiv> 93"
abbreviation LBRACE :: nat where "LBRACE \<equiv> 123"
abbreviation RBRACE :: nat where "RBRACE \<equiv> 125"
abbreviation NBSP :: nat where "NBSP \<equiv> 160"
abbreviation ZWSP :: nat where "ZWSP \<equiv> 8203"

text \<open>The exceptions the modelled code can raise.\<close>

datatype py_error =
    ValueError
  | IndexError
  | KeyError
  | TypeError
  | AttributeError
  | UnicodeEncodeError
  | StreamlitAPIException

text \<open>
  \<open>str.isspace\<close> for one code point: the characters that \<open>str.strip()\<close> and
  \<open>str.split()\<close> treat as whitespace.
\<close>

definition py_isspace :: "nat \<Rightarrow> bool" where
  "py_isspace c \<longleftrightarrow>
     (9 \<le> c \<and> c \<le> 13) \<or> (28 \<le> c \<and> c \<le> 32) \<or> c = 133 \<or> c = 160 \<or> c = 5760 \<or>
     (8192 \<le> c \<and> c \<le> 8202) \<or> c = 8232 \<or> c = 8233 \<or> c = 8239 \<or> c = 8287 \<or> c = 12288"

text \<open>\<open>s.strip()\<close>: leading and trailing whitespace removed.\<close>

definition strip :: "pystr \<Rightarrow> pystr" where
  "strip s = rev (dropWhile py_isspace (rev (dropWhile py_isspace s)))"

text \<open>
  \<open>s.replace(old, new)\<close>: every non-overlapping occurrence of \<open>old\<close>, found from the
  left, is replaced. With an empty \<open>old\<close> Python puts \<open>new\<close> before every character
  and at the end.
\<close>

function replace :: "pystr \<Rightarrow> pystr \<Rightarrow> pystr \<Rightarrow> pystr" where
  "replace old new [] = (if old = [] then new else [])"
| "replace old new (c # cs) =
     (if old = [] then new @ c # replace old new cs
      else if take (length old) (c # cs) = old
           then new @ replace old new (drop (length old) (c # cs))
           else c # replace old new cs)"
  by pat_completeness auto
termination
  by (relation "measure (\<lambda>(old, new, s). length s)") auto

text \<open>
  \<open>s.split(sep)\<close> for a non-empty separator (Python raises \<open>ValueError\<close> on an empty
  one; the program only splits on the constant \<open>"\\n\\n"\<close>). \<open>acc\<close> is the piece read
  so far.
\<close>

function split_acc :: "pystr \<Rightarrow> pystr \<Rightarrow> pystr \<Rightarrow> pystr list" where
  "split_acc sep acc [] = [acc]"
| "split_acc sep acc (c # cs) =
     (if sep \<noteq> [] \<and> take (length sep) (c # cs) = sep
      then acc # split_acc sep [] (drop (length sep) (c # cs))
      else split_acc sep (acc @ [c]) cs)"
  by pat_completeness auto
termination
  by (relation "measure (\<lambda>(sep, acc, s). length s)") auto

definition split_sep :: "pystr \<Rightarrow> pystr \<Rightarrow> pystr list" where
  "split_sep s sep = split_acc sep [] s"

text \<open>
  \<open>s.split()\<close> with no argument: the maximal runs of non-whitespace characters; an
  empty or all-whitespace string gives the empty list. \<open>acc\<close> is the run read so far.
\<close>

fun split_ws_acc :: "pystr \<Rightarrow> pystr \<Rightarrow> pystr list" where
  "split_ws_acc acc [] = (if acc = [] then [] else [acc])"
| "split_ws_acc acc (c # cs) =
     (if py_isspace c
      then (if acc = [] then split_ws_acc [] cs else acc # split_ws_acc [] cs)
      else split_ws_acc (acc @ [c]) cs)"

definition split_ws :: "pystr \<Rightarrow> pystr list" where
  "split_ws s = split_ws_acc [] s"

section \<open>Helpers of the program\<close>

text \<open>
  \<open>clean_value\<close> on a textual cell: non-breaking spaces become spaces, zero-width
  spaces are dropped, the result is stripped.
\<close>

definition clean_value :: "pystr \<Rightarrow> pystr" where
  "clean_value val = strip (replace [ZWSP] [] (replace [NBSP] [SPACE] val))"

text \<open>
  \<open>clean_email_address\<close>. The argument is what \<open>row.get("email")\<close> gives: \<open>None\<close>
  when the row has no such field. \<open>email.utils.parseaddr\<close> is a library function
  outside the program; it is the parameter \<open>parseaddr\<close>, returning the pair of display
  name and address.
\<close>

definition clean_email_address :: "(pystr \<Rightarrow> pystr \<times> pystr) \<Rightarrow> pystr option \<Rightarrow> pystr option" where
  "clean_email_address parseaddr raw_email =
     (case raw_email of
        None \<Rightarrow> None
      | Some raw \<Rightarrow>
          if raw = [] then None
          else let raw' = clean_value raw;
                   addr = snd (parseaddr raw')
               in if AT \<in> set addr then Some addr else None)"

text \<open>
  \<open>get_first_name\<close>: \<open>full_name.strip().split()[0]\<close> raises \<open>IndexError\<close> when the
  split is empty.
\<close>

definition get_first_name :: "pystr \<Rightarrow> py_error + pystr" where
  "get_first_name full_name =
     (if full_name = [] then Inr []
      else case split_ws (strip full_name) of
             [] \<Rightarrow> Inl IndexError
           | tok # _ \<Rightarrow> Inr tok)"

text \<open>
  \<open>str.format_map\<close>. The template is read from the left, as CPython's
  \<open>MarkupIterator\<close> and \<open>parse_field\<close> do:
  \<^item> \<open>{{\<close> and \<open>}}\<close> stand for one brace; any other character is copied;
  \<^item> a \<open>}\<close> that is not doubled, and a \<open>{\<close> at the end of the template, raise
    \<open>ValueError\<close>;
  \<^item> \<open>{\<close> opens a replacement field. Its name runs to the next \<open>}\<close>, \<open>:\<close> or
    \<open>!\<close>; a \<open>[\<close> in the name hides everything up to the next \<open>]\<close>; another
    \<open>{\<close> in the name, or the end of the template, raise \<open>ValueError\<close>;
  \<^item> \<open>!\<close> is followed by one conversion character and then by \<open>}\<close> or \<open>:\<close>;
  \<^item> \<open>:\<close> opens the format specification, which runs to the \<open>}\<close> that closes the
    field, braces inside it being counted (\<open>depth\<close>).
  Each field is rendered when its closing brace is read, so an error of an earlier
  field comes before a syntax error further right.

  What the library computes beyond this is a parameter:
  \<^item> \<open>unicode_decimal c\<close>: whether the character \<open>c\<close> beyond ASCII is a decimal digit
    in the Unicode tables of the Python at hand;
  \<^item> \<open>rich_field lookup name conv spec\<close>: the text, or the exception, of a field with
    an attribute or an index in its name, a conversion or a format specification.
\<close>

record formatter =
  unicode_decimal :: "nat \<Rightarrow> bool"
  rich_field :: "(pystr \<Rightarrow> pystr) \<Rightarrow> pystr \<Rightarrow> nat option \<Rightarrow> pystr \<Rightarrow> py_error + pystr"

definition ascii_digit :: "nat \<Rightarrow> bool" where
  "ascii_digit c \<longleftrightarrow> 48 \<le> c \<and> c \<le> 57"

definition decimal :: "formatter \<Rightarrow> nat \<Rightarrow> bool" where
  "decimal L c = (if c < 128 then ascii_digit c else unicode_decimal L c)"

text \<open>
  \<open>field_value\<close> resolves the name of a plain field. An empty name or a decimal number
  is a positional field, which \<open>format_map\<close> refuses with \<open>ValueError\<close>; any other
  name is looked up. \<open>lookup\<close> is the mapping's \<open>__getitem__\<close>; the value is a string
  and is formatted with the empty specification, that is, copied.
\<close>

definition field_value :: "formatter \<Rightarrow> (pystr \<Rightarrow> pystr) \<Rightarrow> pystr \<Rightarrow> py_error + pystr" where
  "field_value L lookup name =
     (if list_all (decimal L) name then Inl ValueError else Inr (lookup name))"

definition render_field ::
  "formatter \<Rightarrow> (pystr \<Rightarrow> pystr) \<Rightarrow> pystr \<Rightarrow> nat option \<Rightarrow> pystr \<Rightarrow> py_error + pystr" where
  "render_field L lookup name conv spec =
     (if conv = None \<and> spec = [] \<and> DOT \<notin> set name \<and> LBRACKET \<notin> set name
      then field_value L lookup name
      else rich_field L lookup name conv spec)"

fun prepend :: "pystr \<Rightarrow> py_error + pystr \<Rightarrow> py_error + pystr" where
  "prepend s (Inl e) = Inl e"
| "prepend s (Inr t) = Inr (s @ t)"

function format_literal :: "formatter \<Rightarrow> (pystr \<Rightarrow> pystr) \<Rightarrow> pystr \<Rightarrow> py_error + pystr"
  and format_field :: "formatter \<Rightarrow> (pystr \<Rightarrow> pystr) \<Rightarrow> pystr \<Rightarrow> pystr \<Rightarrow> py_error + pystr"
  and format_bracket :: "formatter \<Rightarrow> (pystr \<Rightarrow> pystr) \<Rightarrow> pystr \<Rightarrow> pystr \<Rightarrow> py_error + pystr"
  and format_spec ::
    "formatter \<Rightarrow> (pystr \<Rightarrow> pystr) \<Rightarrow> pystr \<Rightarrow> nat option \<Rightarrow> pystr \<Rightarrow> nat \<Rightarrow> pystr \<Rightarrow> py_error + pystr"
where
  "format_literal L lookup [] = Inr []"
| "format_literal L lookup [c] =
     (if c = LBRACE \<or> c = RBRACE then Inl ValueError else Inr [c])"
| "format_literal L lookup (c # d # ds) =
     (if c = RBRACE then
        (if d = RBRACE then prepend [RBRACE] (format_literal L lookup ds) else Inl ValueError)
      else if c = LBRACE then
        (if d = LBRACE then prepend [LBRACE] (format_literal L lookup ds)
         else format_field L lookup [] (d # ds))
      else prepend [c] (format_literal L lookup (d # ds)))"
| "format_field L lookup name [] = Inl ValueError"
| "format_field L lookup name (c # cs) =
     (if c = LBRACE then Inl ValueError
      else if c = LBRACKET then format_bracket L lookup (name @ [c]) cs
      else if c = RBRACE then
        (case render_field L lookup name None [] of
           Inl e \<Rightarrow> Inl e
         | Inr v \<Rightarrow> prepend v (format_literal L lookup cs))
      else if c = COLON then format_spec L lookup name None [] 0 cs
      else if c = BANG then
        (case cs of
           [] \<Rightarrow> Inl ValueError
         | [conv] \<Rightarrow> Inl ValueError
         | conv # x # xs \<Rightarrow>
             if x = RBRACE then
               (case render_field L lookup name (Some conv) [] of
                  Inl e \<Rightarrow> Inl e
                | Inr v \<Rightarrow> prepend v (format_literal L lookup xs))
             else if x = COLON then format_spec L lookup name (Some conv) [] 0 xs
             else Inl ValueError)
      else format_field L lookup (name @ [c]) cs)"
| "format_bracket L lookup name [] = Inl ValueError"
| "format_bracket L lookup name (c # cs) =
     (if c = RBRACKET then format_field L lookup (name @ [c]) cs
      else format_bracket L lookup (name @ [c]) cs)"
| "format_spec L lookup name conv spec depth [] = Inl ValueError"
| "format_spec L lookup name conv spec depth (c # cs) =
     (if c = LBRACE then format_spec L lookup name conv (spec @ [c]) (Suc depth) cs
      else if c = RBRACE then
        (case depth of
           0 \<Rightarrow>
             (case render_field L lookup name conv spec of
                Inl e \<Rightarrow> Inl e
              | Inr v \<Rightarrow> prepend v (format_literal L lookup cs))
         | Suc k \<Rightarrow> format_spec L lookup name conv (spec @ [c]) k cs)
      else format_spec L lookup name conv (spec @ [c]) depth cs)"
  by pat_completeness auto
termination
  by (relation "measure (\<lambda>x. case x of
        Inl (Inl (L, lookup, t)) \<Rightarrow> length t
      | Inl (Inr (L, lookup, name, t)) \<Rightarrow> length t
      | Inr (Inl (L, lookup, name, t)) \<Rightarrow> length t
      | Inr (Inr (L, lookup, name, conv, spec, depth, t)) \<Rightarrow> length t)") auto

definition format_map :: "formatter \<Rightarrow> pystr \<Rightarrow> (pystr \<Rightarrow> pystr) \<Rightarrow> py_error + pystr" where
  "format_map L template lookup = format_literal L lookup template"

text \<open>
  A recipient row: the dictionary of one table line, from column name to cell, in
  column order. Cells are strings, as in the data model of the specification.
\<close>

type_synonym row = "(pystr \<times> pystr) list"

text \<open>\<open>defaultdict(str, mapping)[key]\<close>: the value, or \<open>str()\<close> for a missing key.\<close>

definition defaultdict_str :: "row \<Rightarrow> pystr \<Rightarrow> pystr" where
  "defaultdict_str mapping key = (case map_of mapping key of Some v \<Rightarrow> v | None \<Rightarrow> [])"

definition safe_format :: "formatter \<Rightarrow> pystr \<Rightarrow> row \<Rightarrow> py_error + pystr" where
  "safe_format L template mapping = format_map L template (defaultdict_str mapping)"

text \<open>\<open>html.escape(s)\<close> with \<open>quote=True\<close>: five replacements, the ampersand first.\<close>

definition html_escape :: "pystr \<Rightarrow> pystr" where
  "html_escape s =
     replace [SQUOTE] (py ''&#x27;'')
       (replace [DQUOTE] (py ''&quot;'')
         (replace [GT] (py ''&gt;'')
           (replace [LT] (py ''&lt;'')
             (replace [AMP] (py ''&amp;'') s))))"

definition P_OPEN :: pystr where
  "P_OPEN = py ''<p style='' @ [SQUOTE] @ py ''margin:0 0 16px 0; line-height:1.6;'' @ [SQUOTE] @ py ''>''"

definition P_CLOSE :: pystr where
  "P_CLOSE = py ''</p>''"

definition BR :: pystr where
  "BR = py ''<br>''"

definition text_to_html :: "pystr \<Rightarrow> pystr" where
  "text_to_html text =
     (let text1 = replace [CR] [LF] (replace [CR, LF] [LF] text);
          text2 = html_escape text1;
          paragraphs = split_sep text2 [LF, LF];
          html_blocks = map (\<lambda>para. P_OPEN @ replace [LF] BR para @ P_CLOSE) paragraphs
      in concat html_blocks)"

section \<open>Session state, environment and effects\<close>

record session_state =
  stop_sending :: bool
  sent_count :: int
  last_sent_index :: int
  resume_mode :: bool
  failed_rows :: "row list"

definition defaults :: session_state where
  "defaults = \<lparr>stop_sending = False, sent_count = 0, last_sent_index = - 1,
                resume_mode = False, failed_rows = []\<rparr>"

text \<open>The operator's inputs: sender, credential, sender name and the two templates.\<close>

record config =
  from_email :: pystr
  app_password :: pystr
  from_name :: pystr
  subject_tpl :: pystr
  body_tpl :: pystr

text \<open>
  The message handed to the transport. The encoding of the headers is left to the mail
  library; the record keeps what each header is built from. \<open>str(Header(s, "utf-8"))\<close>
  is \<open>s\<close>.
\<close>

record message =
  msg_from :: "pystr \<times> pystr"
  msg_to :: pystr
  msg_subject :: pystr
  msg_html :: pystr

text \<open>
  What the loop does not decide itself:
  \<^item> \<open>parseaddr\<close>, the library's address parser;
  \<^item> \<open>formatter\<close>, the library's part of \<open>str.format_map\<close>;
  \<^item> \<open>smtp_send idx msg\<close>, the outcome of the \<open>with smtplib.SMTP(...)\<close> block for the
    row at \<open>idx\<close>: \<open>None\<close> when the message was submitted, \<open>Some d\<close> when an exception
    with description \<open>d = str(e)\<close> was raised;
  \<^item> \<open>stop_pressed idx\<close>, whether the operator's Stop has set \<open>stop_sending\<close> by the
    time the iteration for \<open>idx\<close> tests it.
\<close>

record env =
  parseaddr :: "pystr \<Rightarrow> pystr \<times> pystr"
  formatter :: formatter
  smtp_send :: "int \<Rightarrow> message \<Rightarrow> pystr option"
  stop_pressed :: "int \<Rightarrow> bool"

text \<open>
  The observable effects, in the order they happen. \<open>Smtp\<close> records one transport call
  with the row index it was made for and its outcome.
\<close>

datatype effect =
    St_warning string
  | St_success pystr
  | St_error pystr
  | Smtp int message "pystr option"
  | Progress int int
  | Sleep nat

definition EMAILS_PER_BATCH :: nat where "EMAILS_PER_BATCH = 5"
definition BATCH_COOLDOWN :: nat where "BATCH_COOLDOWN = 120"
definition DELAY_BETWEEN_EMAILS :: nat where "DELAY_BETWEEN_EMAILS = 22"

section \<open>The dispatch loop\<close>

text \<open>
  \<open>df.iloc[idx]\<close>: a negative index counts from the end, an index outside the table
  raises \<open>IndexError\<close>.
\<close>

definition iloc :: "row list \<Rightarrow> int \<Rightarrow> py_error + row" where
  "iloc df idx =
     (let n = int (length df)
      in if 0 \<le> idx \<and> idx < n then Inr (df ! nat idx)
         else if - n \<le> idx \<and> idx < 0 then Inr (df ! nat (n + idx))
         else Inl IndexError)"

text \<open>\<open>row.get(key, "")\<close>\<close>

definition row_get :: "row \<Rightarrow> pystr \<Rightarrow> pystr" where
  "row_get r key = (case map_of r key of Some v \<Rightarrow> v | None \<Rightarrow> [])"

text \<open>
  The f-string around the body: the lines of the literal with their indentation. The
  source file indents with pairs of a non-breaking space and a space, and inside the
  literal these characters belong to the string.
\<close>

definition indent :: "nat \<Rightarrow> pystr" where
  "indent n = concat (replicate n [NBSP, SPACE])"

definition html_shell :: "pystr \<Rightarrow> pystr" where
  "html_shell inner =
     [LF] @ indent 4 @ py ''<html>'' @
     [LF] @ indent 5 @ py ''<body style='' @ [DQUOTE] @ py ''font-family:'' @ [SQUOTE] @
            py ''Times New Roman'' @ [SQUOTE] @ py '', serif; font-size:15px;'' @ [DQUOTE] @ py ''>'' @
     [LF] @ indent 6 @ inner @
     [LF] @ indent 5 @ py ''</body>'' @
     [LF] @ indent 4 @ py ''</html>'' @
     [LF] @ indent 4"

text \<open>
  The first part of the loop body, from \<open>recip = ...\<close> to the assembled message.
  None of it stands inside the \<open>try\<close>:
  \<^item> \<open>No_recipient\<close>: no usable address, the row takes the \<open>continue\<close>;
  \<^item> \<open>Render_error e\<close>: rendering or assembly raised \<open>e\<close>. \<open>formataddr\<close> raises
    \<open>UnicodeEncodeError\<close> for a sender address that is not ASCII;
  \<^item> \<open>Ready msg\<close>: the message for the transport.
  The subject is rendered from the row itself, the body from \<open>body_row\<close>, the copy whose
  \<open>name\<close> holds the first name.
\<close>

datatype prepared = No_recipient | Render_error py_error | Ready message

definition build_message :: "env \<Rightarrow> config \<Rightarrow> row \<Rightarrow> prepared" where
  "build_message E C r =
     (case clean_email_address (parseaddr E) (map_of r (py ''email'')) of
        None \<Rightarrow> No_recipient
      | Some recip \<Rightarrow>
     (case safe_format (formatter E) (subject_tpl C) r of
        Inl e \<Rightarrow> Render_error e
      | Inr subject \<Rightarrow>
     (case get_first_name (row_get r (py ''name'')) of
        Inl e \<Rightarrow> Render_error e
      | Inr first \<Rightarrow>
     (let body_row = AList.update (py ''name'') first r
      in case safe_format (formatter E) (body_tpl C) body_row of
        Inl e \<Rightarrow> Render_error e
      | Inr body_text \<Rightarrow>
          if \<not> list_all (\<lambda>c. c < 128) (from_email C) then Render_error UnicodeEncodeError
          else Ready \<lparr>msg_from = (from_name C, from_email C), msg_to = recip,
                      msg_subject = subject,
                      msg_html = html_shell (text_to_html body_text)\<rparr>))))"

text \<open>
  The \<open>try\<close> statement: on success the counters advance, on an exception the row with
  its \<open>__error\<close> field is appended to \<open>failed_rows\<close>. The result is the new state,
  the effects and the new \<open>sent_in_batch\<close>.
\<close>

definition transport :: "env \<Rightarrow> int \<Rightarrow> nat \<Rightarrow> session_state \<Rightarrow> row \<Rightarrow> message \<Rightarrow>
    session_state \<times> effect list \<times> nat" where
  "transport E idx sent_in_batch st r msg =
     (case smtp_send E idx msg of
        None \<Rightarrow>
          (st\<lparr>sent_count := sent_count st + 1, last_sent_index := idx\<rparr>,
           [Smtp idx msg None, St_success (py ''Sent to '' @ msg_to msg)],
           sent_in_batch + 1)
      | Some d \<Rightarrow>
          (st\<lparr>failed_rows := failed_rows st @ [AList.update (py ''__error'') d r]\<rparr>,
           [Smtp idx msg (Some d), St_error (py ''Failed: '' @ msg_to msg)],
           sent_in_batch))"

text \<open>
  One iteration of the loop body for a row that was read.
  \<^item> \<open>Skipped\<close>: the \<open>continue\<close>;
  \<^item> \<open>Aborted e st es\<close>: an exception left the loop, after the effects \<open>es\<close> and with
    the session state \<open>st\<close>. \<open>st.progress\<close> refuses a value below 0;
  \<^item> \<open>Processed st es n\<close>: the iteration ran to its end, with the new state, the
    effects and the new value of \<open>sent_in_batch\<close>.
\<close>

datatype row_result =
    Skipped
  | Aborted py_error session_state "effect list"
  | Processed session_state "effect list" nat

definition process_row ::
  "env \<Rightarrow> config \<Rightarrow> int \<Rightarrow> int \<Rightarrow> nat \<Rightarrow> session_state \<Rightarrow> row \<Rightarrow> row_result" where
  "process_row E C total_rows idx sent_in_batch st r =
     (case build_message E C r of
        No_recipient \<Rightarrow> Skipped
      | Render_error e \<Rightarrow> Aborted e st []
      | Ready msg \<Rightarrow>
          (case transport E idx sent_in_batch st r msg of
             (st1, es1, n1) \<Rightarrow>
               if idx + 1 < 0 then Aborted StreamlitAPIException st1 es1
               else
                 let es2 = es1 @ [Progress (idx + 1) total_rows, Sleep DELAY_BETWEEN_EMAILS]
                 in if n1 \<ge> EMAILS_PER_BATCH
                    then Processed st1
                           (es2 @ [St_warning ''Cooling down for Gmail safety...'',
                                   Sleep BATCH_COOLDOWN]) 0
                    else Processed st1 es2 n1))"

text \<open>How a call of \<open>send_bulk\<close> ends.\<close>

datatype ending = Completed | Stopped | Raised py_error

type_synonym run = "ending \<times> session_state \<times> effect list"

definition emit :: "effect list \<Rightarrow> run \<Rightarrow> run" where
  "emit es r = (case r of (x, st, tr) \<Rightarrow> (x, st, es @ tr))"

text \<open>
  \<open>for idx in range(start_index, total)\<close>, from \<open>idx\<close> on, with the current
  \<open>sent_in_batch\<close> and session state.
\<close>

function send_bulk_loop :: "env \<Rightarrow> config \<Rightarrow> row list \<Rightarrow> int \<Rightarrow> nat \<Rightarrow> session_state \<Rightarrow> run" where
  "send_bulk_loop E C df idx sent_in_batch st =
     (if int (length df) \<le> idx then (Completed, st, [])
      else
        let st0 = (if stop_pressed E idx then st\<lparr>stop_sending := True\<rparr> else st)
        in if stop_sending st0
           then (Stopped, st0, [St_warning ''Sending stopped. You can resume later.''])
           else
             (case iloc df idx of
                Inl e \<Rightarrow> (Raised e, st0, [])
              | Inr r \<Rightarrow>
                  (case process_row E C (int (length df)) idx sent_in_batch st0 r of
                     Skipped \<Rightarrow> send_bulk_loop E C df (idx + 1) sent_in_batch st0
                   | Aborted e st1 es \<Rightarrow> (Raised e, st1, es)
                   | Processed st1 es n1 \<Rightarrow> emit es (send_bulk_loop E C df (idx + 1) n1 st1))))"
  by pat_completeness auto
termination
  by (relation "measure (\<lambda>(E, C, df, idx, n, st). nat (int (length df) - idx))") auto

declare send_bulk_loop.simps [simp del]

definition send_bulk :: "env \<Rightarrow> config \<Rightarrow> row list \<Rightarrow> bool \<Rightarrow> session_state \<Rightarrow> run" where
  "send_bulk E C df_to_send resume st =
     (let start_index = (if resume then last_sent_index st + 1 else 0)
      in send_bulk_loop E C df_to_send start_index 0 st)"

section \<open>The operator's controls\<close>

definition press_stop :: "session_state \<Rightarrow> session_state" where
  "press_stop st = st\<lparr>stop_sending := True\<rparr>"

definition press_send :: "session_state \<Rightarrow> session_state" where
  "press_send st = st\<lparr>sent_count := 0, last_sent_index := - 1, failed_rows := [],
                       resume_mode := False, stop_sending := False\<rparr>"

definition press_resume :: "session_state \<Rightarrow> session_state" where
  "press_resume st = st\<lparr>resume_mode := True, stop_sending := False\<rparr>"

text \<open>
  A script run with Send, or with Resume, pressed and a table uploaded: the handler,
  then \<open>send_bulk(df, resume=st.session_state.resume_mode)\<close>.
\<close>

definition run_send :: "env \<Rightarrow> config \<Rightarrow> row list \<Rightarrow> session_state \<Rightarrow> run" where
  "run_send E C df st = (let st1 = press_send st in send_bulk E C df (resume_mode st1) st1)"

definition run_resume :: "env \<Rightarrow> config \<Rightarrow> row list \<Rightarrow> session_state \<Rightarrow> run" where
  "run_resume E C df st = (let st1 = press_resume st in send_bulk E C df (resume_mode st1) st1)"

text \<open>
  "Retry Failed Emails Only": the button exists only while \<open>failed_rows\<close> is not empty.
  \<open>failed_df\<close> is built from the list before the handler runs, so rows that fail again
  during the retry are appended to the list but are not part of the table.
\<close>

definition retry_failed :: "env \<Rightarrow> config \<Rightarrow> session_state \<Rightarrow> run" where
  "retry_failed E C st =
     (if failed_rows st = [] then (Completed, st, [])
      else
        let failed_df = failed_rows st;
            st1 = st\<lparr>stop_sending := False, last_sent_index := - 1\<rparr>
        in send_bulk E C failed_df False st1)"

section \<open>Notions used in the statements\<close>

text \<open>The transport calls of a trace, in order: row index, message and outcome.\<close>

fun transport_calls :: "effect list \<Rightarrow> (int \<times> message \<times> pystr option) list" where
  "transport_calls [] = []"
| "transport_calls (Smtp i m out # es) = (i, m, out) # transport_calls es"
| "transport_calls (e # es) = transport_calls es"

text \<open>
  The table and the templates of the end-to-end scenario of the specification. For
  the three addresses of the table the library's \<open>parseaddr\<close> returns an empty display
  name and the string itself; \<open>bare_env\<close> is an environment that parses every input so,
  whose transport always succeeds and in which Stop is never pressed. Its formatter,
  \<open>ascii_formatter\<close>, stands for the library on templates that have no rich field and
  no digit beyond ASCII, where the library's part is not asked.
\<close>

definition scenario_table :: "row list" where
  "scenario_table =
     [[(py ''email'', py ''a@x.com''), (py ''name'', py ''Al Pha'')],
      [(py ''email'', py ''bad''), (py ''name'', py ''Be Ta'')],
      [(py ''email'', py ''c@x.com''), (py ''name'', py ''Ga Ma'')]]"

definition scenario_config :: config where
  "scenario_config =
     \<lparr>from_email = py ''team@x.com'', app_password = py ''secret'', from_name = py ''Team'',
      subject_tpl = py ''Hi {name}'', body_tpl = py ''Hello {name}''\<rparr>"

definition ascii_formatter :: formatter where
  "ascii_formatter = \<lparr>unicode_decimal = (\<lambda>c. False),
                      rich_field = (\<lambda>lookup name conv spec. Inl ValueError)\<rparr>"

definition bare_env :: env where
  "bare_env = \<lparr>parseaddr = (\<lambda>s. ([], s)), formatter = ascii_formatter,
               smtp_send = (\<lambda>idx msg. None), stop_pressed = (\<lambda>idx. False)\<rparr>"

text \<open>The parts of a run, and the transport calls it made.\<close>

definition ending_of :: "run \<Rightarrow> ending" where
  "ending_of r = fst r"

definition state_of :: "run \<Rightarrow> session_state" where
  "state_of r = fst (snd r)"

definition trace_of :: "run \<Rightarrow> effect list" where
  "trace_of r = snd (snd r)"

definition calls_of :: "run \<Rightarrow> (int \<times> message \<times> pystr option) list" where
  "calls_of r = transport_calls (trace_of r)"

text \<open>
  A transport call for an index from \<open>lo\<close> on and inside the table, with the message
  built from the row at that index and the outcome the transport gave for it.
\<close>

definition call_ok :: "env \<Rightarrow> config \<Rightarrow> row list \<Rightarrow> int \<Rightarrow> int \<times> message \<times> pystr option \<Rightarrow> bool" where
  "call_ok E C df lo c =
     (case c of (i, m, out) \<Rightarrow>
        lo \<le> i \<and> i < int (length df) \<and>
        (case iloc df i of Inr r \<Rightarrow> build_message E C r = Ready m | Inl e \<Rightarrow> False) \<and>
        out = smtp_send E i m)"

text \<open>The indices of the transport calls that succeeded.\<close>

definition sent_indices :: "effect list \<Rightarrow> int list" where
  "sent_indices tr = map fst (filter (\<lambda>(i, m, out). out = None) (transport_calls tr))"

text \<open>
  Batch pacing, read off a trace. \<open>paced n tr\<close> holds when, with \<open>n\<close> successes
  counted since the last cooldown (or since the start of the call), the trace \<open>tr\<close>
  \<^item> makes a transport call only while fewer than \<open>EMAILS_PER_BATCH\<close> are counted,
  \<^item> sleeps for \<open>BATCH_COOLDOWN\<close> only when exactly \<open>EMAILS_PER_BATCH\<close> are counted,
    and counts from 0 again after it,
  \<^item> does not end with a cooldown still due.
  A failed call leaves the count as it is.
\<close>

fun paced :: "nat \<Rightarrow> effect list \<Rightarrow> bool" where
  "paced n [] = (n < EMAILS_PER_BATCH)"
| "paced n (Smtp i m out # es) =
     (n < EMAILS_PER_BATCH \<and> paced (if out = None then n + 1 else n) es)"
| "paced n (Sleep d # es) =
     (if d = BATCH_COOLDOWN then n = EMAILS_PER_BATCH \<and> paced 0 es else paced n es)"
| "paced n (e # es) = paced n es"

text \<open>
  Six rows with usable addresses, and an environment whose transport fails for row 2
  only.
\<close>

definition six_rows :: "row list" where
  "six_rows =
     [[(py ''email'', py ''a@x.com'')], [(py ''email'', py ''b@x.com'')],
      [(py ''email'', py ''c@x.com'')], [(py ''email'', py ''d@x.com'')],
      [(py ''email'', py ''e@x.com'')], [(py ''email'', py ''f@x.com'')]]"

definition fail_at :: "int \<Rightarrow> env" where
  "fail_at k = \<lparr>parseaddr = (\<lambda>s. ([], s)), formatter = ascii_formatter,
                smtp_send = (\<lambda>idx msg. if idx = k then Some (py ''refused'') else None),
                stop_pressed = (\<lambda>idx. False)\<rparr>"

text \<open>An environment in which Stop is pressed before the row at \<open>k\<close> is tested.\<close>

definition stop_at :: "int \<Rightarrow> env" where
  "stop_at k = \<lparr>parseaddr = (\<lambda>s. ([], s)), formatter = ascii_formatter,
                smtp_send = (\<lambda>idx msg. None),
                stop_pressed = (\<lambda>idx. idx = k)\<rparr>"

text \<open>The configuration of the scenario with a subject template whose brace is not closed.\<close>

definition unbalanced_config :: config where
  "unbalanced_config = scenario_config\<lparr>subject_tpl := py ''Hi {name''\<rparr>"

text \<open>
  Templates made of literal text and \<open>{key}\<close> placeholders. \<open>show_template\<close> writes
  such a template as a format string: a brace of the text is doubled, a placeholder is
  its key in braces. \<open>fill\<close> is the text with each placeholder replaced by the value of
  its key, and by nothing when the mapping has no such key.
\<close>

datatype piece = Text pystr | Field pystr

fun escape_braces :: "pystr \<Rightarrow> pystr" where
  "escape_braces [] = []"
| "escape_braces (c # cs) =
     (if c = LBRACE \<or> c = RBRACE then c # c # escape_braces cs else c # escape_braces cs)"

fun show_template :: "piece list \<Rightarrow> pystr" where
  "show_template [] = []"
| "show_template (Text s # ps) = escape_braces s @ show_template ps"
| "show_template (Field k # ps) = [LBRACE] @ k @ [RBRACE] @ show_template ps"

fun fill :: "row \<Rightarrow> piece list \<Rightarrow> pystr" where
  "fill mapping [] = []"
| "fill mapping (Text s # ps) = s @ fill mapping ps"
| "fill mapping (Field k # ps) =
     (case map_of mapping k of Some v \<Rightarrow> v | None \<Rightarrow> []) @ fill mapping ps"

text \<open>
  A plain key: no character of the format syntax (braces, \<open>[\<close>, \<open>.\<close>, \<open>:\<close>,
  \<open>!\<close>), not empty and not a decimal number, so that the field is not positional.
\<close>

definition plain_key :: "formatter \<Rightarrow> pystr \<Rightarrow> bool" where
  "plain_key L k \<longleftrightarrow>
     list_all (\<lambda>c. c \<notin> {LBRACE, RBRACE, LBRACKET, DOT, COLON, BANG}) k \<and>
     \<not> list_all (decimal L) k"

fun plain_piece :: "formatter \<Rightarrow> piece \<Rightarrow> bool" where
  "plain_piece L (Text s) = True"
| "plain_piece L (Field k) = plain_key L k"

text \<open>
  The message formatter in the words of the specification.
  \<^item> \<open>normalize_newlines\<close>: every \<open>\\r\\n\<close> and every remaining \<open>\\r\<close> becomes one
    \<open>\\n\<close>;
  \<^item> \<open>html_escape_char\<close>: the entity for each of the five characters with a meaning in
    markup, any other character as it is;
  \<^item> \<open>join sep pieces\<close>: Python's \<open>sep.join(pieces)\<close>.
\<close>

fun normalize_newlines :: "pystr \<Rightarrow> pystr" where
  "normalize_newlines [] = []"
| "normalize_newlines [c] = (if c = CR then [LF] else [c])"
| "normalize_newlines (c # d # ds) =
     (if c = CR \<and> d = LF then LF # normalize_newlines ds
      else if c = CR then LF # normalize_newlines (d # ds)
      else c # normalize_newlines (d # ds))"

definition html_escape_char :: "nat \<Rightarrow> pystr" where
  "html_escape_char c =
     (if c = AMP then py ''&amp;''
      else if c = LT then py ''&lt;''
      else if c = GT then py ''&gt;''
      else if c = DQUOTE then py ''&quot;''
      else if c = SQUOTE then py ''&#x27;''
      else [c])"

fun join :: "pystr \<Rightarrow> pystr list \<Rightarrow> pystr" where
  "join sep [] = []"
| "join sep [p] = p"
| "join sep (p # q # ps) = p @ sep @ join sep (q # ps)"

text \<open>A blank-line boundary inside a string: two newlines in a row.\<close>

fun has_blank_line :: "pystr \<Rightarrow> bool" where
  "has_blank_line (c # d # ds) = ((c = LF \<and> d = LF) \<or> has_blank_line (d # ds))"
| "has_blank_line ds = False"

section \<open>Unfolding the loop\<close>

lemma send_bulk_loop_done:
  "int (length df) \<le> idx \<Longrightarrow> send_bulk_loop E C df idx n st = (Completed, st, [])"
  by (simp add: send_bulk_loop.simps)

lemma send_bulk_loop_step:
  "idx < int (length df) \<Longrightarrow>
   send_bulk_loop E C df idx n st =
     (let st0 = (if stop_pressed E idx then st\<lparr>stop_sending := True\<rparr> else st)
      in if stop_sending st0
         then (Stopped, st0, [St_warning ''Sending stopped. You can resume later.''])
         else
           (case iloc df idx of
              Inl e \<Rightarrow> (Raised e, st0, [])
            | Inr r \<Rightarrow>
                (case process_row E C (int (length df)) idx n st0 r of
                   Skipped \<Rightarrow> send_bulk_loop E C df (idx + 1) n st0
                 | Aborted e st1 es \<Rightarrow> (Raised e, st1, es)
                 | Processed st1 es n1 \<Rightarrow> emit es (send_bulk_loop E C df (idx + 1) n1 st1))))"
  by (subst send_bulk_loop.simps) simp

text \<open>The facts that evaluate the string functions and a run on concrete input.\<close>

lemmas string_eval =
  py_def strip_def split_ws_def py_isspace_def clean_value_def get_first_name_def
  ascii_digit_def decimal_def field_value_def render_field_def format_map_def
  defaultdict_str_def safe_format_def
  html_escape_def P_OPEN_def P_CLOSE_def BR_def split_sep_def text_to_html_def

lemmas run_eval =
  send_bulk_loop_step send_bulk_loop_done send_bulk_def iloc_def process_row_def
  build_message_def transport_def clean_email_address_def row_get_def emit_def
  EMAILS_PER_BATCH_def Let_def

section \<open>One iteration\<close>

text \<open>
  A property of every run of the loop follows from the six ways an iteration can go:
  the table is exhausted, the stop flag is seen, the row cannot be read, the row is
  skipped, an exception leaves the loop, or the row is processed and the loop goes on.
\<close>

lemma send_bulk_loop_rule [case_names Done Stop Iloc Skip Abort Proc]:
  fixes Q :: "int \<Rightarrow> nat \<Rightarrow> session_state \<Rightarrow> run \<Rightarrow> bool"
  assumes Done: "\<And>idx n st. int (length df) \<le> idx \<Longrightarrow> Q idx n st (Completed, st, [])"
    and Stop: "\<And>idx n st st0. idx < int (length df) \<Longrightarrow>
        st0 = (if stop_pressed E idx then st\<lparr>stop_sending := True\<rparr> else st) \<Longrightarrow>
        stop_sending st0 \<Longrightarrow>
        Q idx n st (Stopped, st0, [St_warning ''Sending stopped. You can resume later.''])"
    and Iloc: "\<And>idx n st st0 e. idx < int (length df) \<Longrightarrow>
        st0 = (if stop_pressed E idx then st\<lparr>stop_sending := True\<rparr> else st) \<Longrightarrow>
        \<not> stop_sending st0 \<Longrightarrow> iloc df idx = Inl e \<Longrightarrow> Q idx n st (Raised e, st0, [])"
    and Skip: "\<And>idx n st r res. idx < int (length df) \<Longrightarrow>
        \<not> stop_pressed E idx \<Longrightarrow> \<not> stop_sending st \<Longrightarrow> iloc df idx = Inr r \<Longrightarrow>
        process_row E C (int (length df)) idx n st r = Skipped \<Longrightarrow>
        res = send_bulk_loop E C df (idx + 1) n st \<Longrightarrow>
        Q (idx + 1) n st res \<Longrightarrow> Q idx n st res"
    and Abort: "\<And>idx n st r e st1 es. idx < int (length df) \<Longrightarrow>
        \<not> stop_pressed E idx \<Longrightarrow> \<not> stop_sending st \<Longrightarrow> iloc df idx = Inr r \<Longrightarrow>
        process_row E C (int (length df)) idx n st r = Aborted e st1 es \<Longrightarrow>
        Q idx n st (Raised e, st1, es)"
    and Proc: "\<And>idx n st r st1 es n1 res. idx < int (length df) \<Longrightarrow>
        \<not> stop_pressed E idx \<Longrightarrow> \<not> stop_sending st \<Longrightarrow> iloc df idx = Inr r \<Longrightarrow>
        process_row E C (int (length df)) idx n st r = Processed st1 es n1 \<Longrightarrow>
        res = send_bulk_loop E C df (idx + 1) n1 st1 \<Longrightarrow>
        Q (idx + 1) n1 st1 res \<Longrightarrow> Q idx n st (emit es res)"
  shows "Q idx n st (send_bulk_loop E C df idx n st)"
proof (induction "nat (int (length df) - idx)" arbitrary: idx n st rule: less_induct)
  case less
  define st0 where "st0 = (if stop_pressed E idx then st\<lparr>stop_sending := True\<rparr> else st)"
  show ?case
  proof (cases "int (length df) \<le> idx")
    case True
    then show ?thesis using Done by (simp add: send_bulk_loop_done)
  next
    case False
    then have lt: "idx < int (length df)" by simp
    then have IH: "Q (idx + 1) n' st' (send_bulk_loop E C df (idx + 1) n' st')" for n' st'
      using less [of "idx + 1" n' st'] by simp
    show ?thesis
    proof (cases "stop_sending st0")
      case True
      then show ?thesis using lt Stop [OF lt st0_def True, of n]
        by (simp add: send_bulk_loop_step st0_def)
    next
      case ns: False
      then have nsp: "\<not> stop_pressed E idx" "\<not> stop_sending st"
        by (auto simp: st0_def split: if_splits)
      show ?thesis
      proof (cases "iloc df idx")
        case (Inl e)
        then show ?thesis using lt nsp Iloc [OF lt st0_def ns Inl, of n]
          by (simp add: send_bulk_loop_step st0_def)
      next
        case (Inr r)
        show ?thesis
        proof (cases "process_row E C (int (length df)) idx n st r")
          case Skipped
          then show ?thesis
            using lt nsp Inr Skip [OF lt nsp Inr Skipped refl IH]
            by (simp add: send_bulk_loop_step)
        next
          case (Aborted e st1 es)
          then show ?thesis
            using lt nsp Inr Abort [OF lt nsp Inr Aborted]
            by (simp add: send_bulk_loop_step)
        next
          case (Processed st1 es n1)
          then show ?thesis
            using lt nsp Inr Proc [OF lt nsp Inr Processed refl IH]
            by (simp add: send_bulk_loop_step)
        qed
      qed
    qed
  qed
qed

lemma transport_calls_append: "transport_calls (es @ tr) = transport_calls es @ transport_calls tr"
  by (induction es rule: transport_calls.induct) simp_all

lemma process_row_Skipped: "process_row E C t idx n st r = Skipped \<longleftrightarrow> build_message E C r = No_recipient"
  by (auto simp: process_row_def Let_def split: prepared.splits prod.splits)

lemma process_row_Aborted:
  assumes "process_row E C t idx n st r = Aborted e st1 es"
  shows "(build_message E C r = Render_error e \<and> st1 = st \<and> es = []) \<or>
         (\<exists>m. build_message E C r = Ready m \<and> idx + 1 < 0 \<and> e = StreamlitAPIException \<and>
              (st1, es, snd (snd (transport E idx n st r m))) = transport E idx n st r m)"
  using assms
  by (auto simp: process_row_def Let_def split: prepared.splits prod.splits if_splits)

lemma process_row_Processed:
  assumes "process_row E C t idx n st r = Processed st1 es n1"
  shows "\<exists>m es1 n'. build_message E C r = Ready m \<and> 0 \<le> idx + 1 \<and>
           transport E idx n st r m = (st1, es1, n') \<and>
           (if n' \<ge> EMAILS_PER_BATCH
            then es = es1 @ [Progress (idx + 1) t, Sleep DELAY_BETWEEN_EMAILS,
                             St_warning ''Cooling down for Gmail safety...'', Sleep BATCH_COOLDOWN] \<and> n1 = 0
            else es = es1 @ [Progress (idx + 1) t, Sleep DELAY_BETWEEN_EMAILS] \<and> n1 = n')"
  using assms
  by (auto simp: process_row_def Let_def split: prepared.splits prod.splits if_splits)

lemma transport_calls_transport:
  "transport E idx n st r m = (st1, es1, n') \<Longrightarrow> transport_calls es1 = [(idx, m, smtp_send E idx m)]"
  by (auto simp: transport_def split: option.splits)

lemma run_parts [simp]:
  "ending_of (x, st, tr) = x" "state_of (x, st, tr) = st" "trace_of (x, st, tr) = tr"
  "calls_of (x, st, tr) = transport_calls tr"
  by (simp_all add: ending_of_def state_of_def trace_of_def calls_of_def)

lemma emit_parts [simp]:
  "ending_of (emit es r) = ending_of r" "state_of (emit es r) = state_of r"
  "trace_of (emit es r) = es @ trace_of r"
  "calls_of (emit es r) = transport_calls es @ calls_of r"
  by (simp_all add: ending_of_def state_of_def trace_of_def calls_of_def emit_def
      transport_calls_append split: prod.splits)

lemma call_ok_mono: "call_ok E C df (lo + 1) c \<Longrightarrow> call_ok E C df lo c"
  by (auto simp: call_ok_def)

lemma process_row_calls:
  assumes "process_row E C t idx n st r = Processed st1 es n1"
  shows "\<exists>m. build_message E C r = Ready m \<and> transport_calls es = [(idx, m, smtp_send E idx m)]"
proof -
  from process_row_Processed [OF assms] obtain m es1 n' where m: "build_message E C r = Ready m"
    and t: "transport E idx n st r m = (st1, es1, n')"
    and es: "es = es1 @ [Progress (idx + 1) t, Sleep DELAY_BETWEEN_EMAILS,
                             St_warning ''Cooling down for Gmail safety...'', Sleep BATCH_COOLDOWN]
           \<or> es = es1 @ [Progress (idx + 1) t, Sleep DELAY_BETWEEN_EMAILS]"
    by metis
  from es have "transport_calls es = transport_calls es1"
    by (auto simp: transport_calls_append)
  then show ?thesis using transport_calls_transport [OF t] m by simp
qed

lemma process_row_abort_calls:
  assumes "process_row E C t idx n st r = Aborted e st1 es"
  shows "transport_calls es = [] \<or>
         (\<exists>m. build_message E C r = Ready m \<and> transport_calls es = [(idx, m, smtp_send E idx m)])"
  using process_row_Aborted [OF assms]
proof
  assume "build_message E C r = Render_error e \<and> st1 = st \<and> es = []"
  then show ?thesis by simp
next
  assume "\<exists>m. build_message E C r = Ready m \<and> idx + 1 < 0 \<and> e = StreamlitAPIException \<and>
              (st1, es, snd (snd (transport E idx n st r m))) = transport E idx n st r m"
  then obtain m where m: "build_message E C r = Ready m"
    and t: "transport E idx n st r m = (st1, es, snd (snd (transport E idx n st r m)))"
    by metis
  from transport_calls_transport [OF t] m show ?thesis by blast
qed

lemma call_ok_here:
  "idx < int (length df) \<Longrightarrow> iloc df idx = Inr r \<Longrightarrow> build_message E C r = Ready m \<Longrightarrow>
   call_ok E C df idx (idx, m, smtp_send E idx m)"
  by (simp add: call_ok_def)

lemma call_ok_above: "call_ok E C df (lo + 1) c \<Longrightarrow> lo < fst c"
  by (cases c) (simp add: call_ok_def)

lemma build_message_No_recipient:
  "build_message E C r = No_recipient \<longleftrightarrow>
   clean_email_address (parseaddr E) (map_of r (py ''email'')) = None"
  by (simp add: build_message_def Let_def split: option.splits sum.splits)

lemma iloc_nth: "0 \<le> idx \<Longrightarrow> idx < int (length df) \<Longrightarrow> iloc df idx = Inr (df ! nat idx)"
  by (simp add: iloc_def)

lemma sent_indices_append: "sent_indices (es @ tr) = sent_indices es @ sent_indices tr"
  by (simp add: sent_indices_def transport_calls_append)

lemma sent_indices_Nil [simp]: "sent_indices [] = []"
  by (simp add: sent_indices_def)

lemma process_row_paced:
  assumes "process_row E C t idx n st r = Processed st1 es n1" and "n < EMAILS_PER_BATCH"
  shows "n1 < EMAILS_PER_BATCH \<and> paced n (es @ tr) = paced n1 tr"
  using assms
  by (auto simp: process_row_def transport_def Let_def EMAILS_PER_BATCH_def BATCH_COOLDOWN_def
      DELAY_BETWEEN_EMAILS_def split: prepared.splits option.splits if_splits)

lemma process_row_cursor:
  assumes "process_row E C t idx n st r = Processed st1 es n1"
  shows "last_sent_index st1 = last (last_sent_index st # sent_indices es)"
  using assms
  by (auto simp: process_row_def transport_def Let_def sent_indices_def
      split: prepared.splits option.splits if_splits)

lemma process_row_abort_cursor:
  assumes "process_row E C t idx n st r = Aborted e st1 es"
  shows "last_sent_index st1 = last (last_sent_index st # sent_indices es)"
  using assms
  by (auto simp: process_row_def transport_def Let_def sent_indices_def
      split: prepared.splits option.splits if_splits)

lemma process_row_abort_nonneg:
  assumes "process_row E C t idx n st r = Aborted e st1 es" and "0 \<le> idx"
  shows "es = [] \<and> st1 = st \<and> build_message E C r = Render_error e"
  using assms
  by (auto simp: process_row_def Let_def split: prepared.splits prod.splits if_splits)

section \<open>Every run of the loop\<close>

text \<open>
  The transport calls of a run are made for increasing indices from the start index on,
  each with the message built from its row.
\<close>

lemma loop_calls:
  "list_all (call_ok E C df idx) (calls_of (send_bulk_loop E C df idx n st)) \<and>
   sorted_wrt (<) (map fst (calls_of (send_bulk_loop E C df idx n st)))"
proof (rule send_bulk_loop_rule [where Q = "\<lambda>idx n st res.
     list_all (call_ok E C df idx) (calls_of res) \<and> sorted_wrt (<) (map fst (calls_of res))"])
  fix idx n st r and res :: run
  assume "list_all (call_ok E C df (idx + 1)) (calls_of res) \<and> sorted_wrt (<) (map fst (calls_of res))"
  then show "list_all (call_ok E C df idx) (calls_of res) \<and> sorted_wrt (<) (map fst (calls_of res))"
    using call_ok_mono [of E C df idx] by (simp add: list_all_iff)
next
  fix idx n st r e st1 es
  assume lt: "idx < int (length df)" and il: "iloc df idx = Inr r"
    and pr: "process_row E C (int (length df)) idx n st r = Aborted e st1 es"
  from process_row_abort_calls [OF pr]
  show "list_all (call_ok E C df idx) (calls_of (Raised e, st1, es)) \<and>
     sorted_wrt (<) (map fst (calls_of (Raised e, st1, es)))"
  proof
    assume "transport_calls es = []"
    then show ?thesis by simp
  next
    assume "\<exists>m. build_message E C r = Ready m \<and> transport_calls es = [(idx, m, smtp_send E idx m)]"
    then obtain m where "build_message E C r = Ready m"
      and "transport_calls es = [(idx, m, smtp_send E idx m)]" by blast
    then show ?thesis using call_ok_here [OF lt il] by simp
  qed
next
  fix idx n st r st1 es n1 and res :: run
  assume lt: "idx < int (length df)" and il: "iloc df idx = Inr r"
    and pr: "process_row E C (int (length df)) idx n st r = Processed st1 es n1"
    and IH: "list_all (call_ok E C df (idx + 1)) (calls_of res) \<and> sorted_wrt (<) (map fst (calls_of res))"
  from process_row_calls [OF pr] obtain m where m: "build_message E C r = Ready m"
    and c: "transport_calls es = [(idx, m, smtp_send E idx m)]" by blast
  have above: "\<forall>c \<in> set (calls_of res). idx < fst c"
    using IH call_ok_above [of E C df idx] by (simp add: list_all_iff)
  have below: "list_all (call_ok E C df idx) (calls_of res)"
    using IH call_ok_mono [of E C df idx] by (simp add: list_all_iff)
  show "list_all (call_ok E C df idx) (calls_of (emit es res)) \<and>
     sorted_wrt (<) (map fst (calls_of (emit es res)))"
    using IH above below c call_ok_here [OF lt il m] by simp
qed simp_all

text \<open>From a start index that is not negative, the trace of a run is paced.\<close>

lemma loop_paced:
  "0 \<le> idx \<longrightarrow> n < EMAILS_PER_BATCH \<longrightarrow> paced n (trace_of (send_bulk_loop E C df idx n st))"
proof (rule send_bulk_loop_rule [where Q = "\<lambda>idx n st res.
     0 \<le> idx \<longrightarrow> n < EMAILS_PER_BATCH \<longrightarrow> paced n (trace_of res)"])
  fix idx n st r e st1 es
  assume "process_row E C (int (length df)) idx n st r = Aborted e st1 es"
  then show "0 \<le> idx \<longrightarrow> n < EMAILS_PER_BATCH \<longrightarrow> paced n (trace_of (Raised e, st1, es))"
    using process_row_abort_nonneg by fastforce
next
  fix idx n st r st1 es n1 and res :: run
  assume pr: "process_row E C (int (length df)) idx n st r = Processed st1 es n1"
    and IH: "0 \<le> idx + 1 \<longrightarrow> n1 < EMAILS_PER_BATCH \<longrightarrow> paced n1 (trace_of res)"
  show "0 \<le> idx \<longrightarrow> n < EMAILS_PER_BATCH \<longrightarrow> paced n (trace_of (emit es res))"
    using process_row_paced [OF pr, of "trace_of res"] IH by simp
qed simp_all

text \<open>The cursor after a run is the index of the last successful call, if there is one.\<close>

lemma loop_cursor:
  "last_sent_index (state_of (send_bulk_loop E C df idx n st)) =
   last (last_sent_index st # sent_indices (trace_of (send_bulk_loop E C df idx n st)))"
proof (rule send_bulk_loop_rule [where Q = "\<lambda>idx n st res.
     last_sent_index (state_of res) = last (last_sent_index st # sent_indices (trace_of res))"])
  fix idx n st r e st1 es
  assume "process_row E C (int (length df)) idx n st r = Aborted e st1 es"
  then show "last_sent_index (state_of (Raised e, st1, es)) =
      last (last_sent_index st # sent_indices (trace_of (Raised e, st1, es)))"
    using process_row_abort_cursor by simp
next
  fix idx n st r st1 es n1 and res :: run
  assume pr: "process_row E C (int (length df)) idx n st r = Processed st1 es n1"
    and IH: "last_sent_index (state_of res) = last (last_sent_index st1 # sent_indices (trace_of res))"
  show "last_sent_index (state_of (emit es res)) =
      last (last_sent_index st # sent_indices (trace_of (emit es res)))"
    using process_row_cursor [OF pr] IH by (simp add: sent_indices_append)
qed (simp_all add: sent_indices_def split: if_splits)

text \<open>A run that completes has called the transport for every row with a usable address.\<close>

lemma loop_completed_calls:
  "0 \<le> idx \<longrightarrow> ending_of (send_bulk_loop E C df idx n st) = Completed \<longrightarrow>
   map fst (calls_of (send_bulk_loop E C df idx n st)) =
     filter (\<lambda>i. clean_email_address (parseaddr E) (map_of (df ! nat i) (py ''email'')) \<noteq> None)
       [idx..int (length df) - 1]"
proof (rule send_bulk_loop_rule [where Q = "\<lambda>idx n st res.
     0 \<le> idx \<longrightarrow> ending_of res = Completed \<longrightarrow>
     map fst (calls_of res) =
       filter (\<lambda>i. clean_email_address (parseaddr E) (map_of (df ! nat i) (py ''email'')) \<noteq> None)
         [idx..int (length df) - 1]"])
  fix idx n st r and res :: run
  assume lt: "idx < int (length df)" and il: "iloc df idx = Inr r"
    and pr: "process_row E C (int (length df)) idx n st r = Skipped"
    and IH: "0 \<le> idx + 1 \<longrightarrow> ending_of res = Completed \<longrightarrow>
     map fst (calls_of res) =
       filter (\<lambda>i. clean_email_address (parseaddr E) (map_of (df ! nat i) (py ''email'')) \<noteq> None)
         [idx + 1..int (length df) - 1]"
  show "0 \<le> idx \<longrightarrow> ending_of res = Completed \<longrightarrow>
     map fst (calls_of res) =
       filter (\<lambda>i. clean_email_address (parseaddr E) (map_of (df ! nat i) (py ''email'')) \<noteq> None)
         [idx..int (length df) - 1]"
  proof (intro impI)
    assume nn: "0 \<le> idx" and c: "ending_of res = Completed"
    have r: "r = df ! nat idx" using iloc_nth [OF nn lt] il by simp
    have "clean_email_address (parseaddr E) (map_of (df ! nat idx) (py ''email'')) = None"
      using pr r by (simp add: process_row_Skipped build_message_No_recipient)
    moreover have "[idx..int (length df) - 1] = idx # [idx + 1..int (length df) - 1]"
      using lt by (simp add: upto_rec1)
    ultimately show "map fst (calls_of res) =
       filter (\<lambda>i. clean_email_address (parseaddr E) (map_of (df ! nat i) (py ''email'')) \<noteq> None)
         [idx..int (length df) - 1]"
      using IH nn c by simp
  qed
next
  fix idx n st r st1 es n1 and res :: run
  assume lt: "idx < int (length df)" and il: "iloc df idx = Inr r"
    and pr: "process_row E C (int (length df)) idx n st r = Processed st1 es n1"
    and IH: "0 \<le> idx + 1 \<longrightarrow> ending_of res = Completed \<longrightarrow>
     map fst (calls_of res) =
       filter (\<lambda>i. clean_email_address (parseaddr E) (map_of (df ! nat i) (py ''email'')) \<noteq> None)
         [idx + 1..int (length df) - 1]"
  show "0 \<le> idx \<longrightarrow> ending_of (emit es res) = Completed \<longrightarrow>
     map fst (calls_of (emit es res)) =
       filter (\<lambda>i. clean_email_address (parseaddr E) (map_of (df ! nat i) (py ''email'')) \<noteq> None)
         [idx..int (length df) - 1]"
  proof (intro impI)
    assume nn: "0 \<le> idx" and c: "ending_of (emit es res) = Completed"
    have r: "r = df ! nat idx" using iloc_nth [OF nn lt] il by simp
    from process_row_calls [OF pr] obtain m where m: "build_message E C r = Ready m"
      and cs: "transport_calls es = [(idx, m, smtp_send E idx m)]" by blast
    have "clean_email_address (parseaddr E) (map_of (df ! nat idx) (py ''email'')) \<noteq> None"
      using m r build_message_No_recipient [of E C r] by simp
    moreover have "[idx..int (length df) - 1] = idx # [idx + 1..int (length df) - 1]"
      using lt by (simp add: upto_rec1)
    ultimately show "map fst (calls_of (emit es res)) =
       filter (\<lambda>i. clean_email_address (parseaddr E) (map_of (df ! nat i) (py ''email'')) \<noteq> None)
         [idx..int (length df) - 1]"
      using IH nn c cs by simp
  qed
qed simp_all

section \<open>The end-to-end scenario\<close>

text \<open>
  C1 (as stated): in the scenario the two transport calls would carry the subjects
  "Hi Al" and "Hi Ga". The code renders the subject from the row itself, before the
  first name is put into \<open>body_row\<close>, so the subjects carry the full names.
\<close>

theorem scenario_subjects_counterexample:
  "map (\<lambda>(i, m, out). msg_subject m)
     (transport_calls (snd (snd (run_send bare_env scenario_config scenario_table defaults))))
   \<noteq> [py ''Hi Al'', py ''Hi Ga'']"
  by (simp add: run_send_def press_send_def defaults_def scenario_table_def scenario_config_def
      bare_env_def run_eval string_eval)

text \<open>
  C1 (amended): for the table of the scenario, the templates "Hi {name}" and
  "Hello {name}" and a transport that always succeeds, a fresh send runs to completion,
  skips row 1 without any record and makes exactly two transport calls, for rows 0 and 2.
  Their subjects are "Hi Al Pha" and "Hi Ga Ma", rendered with the full name; their
  bodies are "Hello Al" and "Hello Ga", rendered with the first name. The run ends with
  \<open>sent_count = 2\<close>, \<open>last_sent_index = 2\<close> and \<open>failed_rows\<close> empty.
\<close>

theorem scenario_run:
  assumes "snd (parseaddr E (py ''a@x.com'')) = py ''a@x.com''"
    and "snd (parseaddr E (py ''bad'')) = py ''bad''"
    and "snd (parseaddr E (py ''c@x.com'')) = py ''c@x.com''"
    and "\<forall>idx msg. smtp_send E idx msg = None"
    and "\<forall>idx. \<not> stop_pressed E idx"
    and "subject_tpl C = py ''Hi {name}''" and "body_tpl C = py ''Hello {name}''"
    and "list_all (\<lambda>c. c < 128) (from_email C)"
  shows "case run_send E C scenario_table st of
           (x, st', tr) \<Rightarrow>
             x = Completed \<and>
             st' = st\<lparr>sent_count := 2, last_sent_index := 2, failed_rows := [],
                      resume_mode := False, stop_sending := False\<rparr> \<and>
             transport_calls tr =
               [(0, \<lparr>msg_from = (from_name C, from_email C), msg_to = py ''a@x.com'',
                     msg_subject = py ''Hi Al Pha'',
                     msg_html = html_shell (P_OPEN @ py ''Hello Al'' @ P_CLOSE)\<rparr>, None),
                (2, \<lparr>msg_from = (from_name C, from_email C), msg_to = py ''c@x.com'',
                     msg_subject = py ''Hi Ga Ma'',
                     msg_html = html_shell (P_OPEN @ py ''Hello Ga'' @ P_CLOSE)\<rparr>, None)]"
  using assms
  by (simp add: run_send_def press_send_def scenario_table_def run_eval string_eval)

theorem scenario_run_witness:
  "(\<forall>idx msg. smtp_send bare_env idx msg = None) \<and>
   (\<forall>idx. \<not> stop_pressed bare_env idx) \<and>
   subject_tpl scenario_config = py ''Hi {name}'' \<and>
   body_tpl scenario_config = py ''Hello {name}'' \<and>
   (case run_send bare_env scenario_config scenario_table defaults of
      (x, st', tr) \<Rightarrow>
        x = Completed \<and> sent_count st' = 2 \<and> last_sent_index st' = 2 \<and> failed_rows st' = [] \<and>
        map (\<lambda>(i, m, out). (i, msg_to m, msg_subject m)) (transport_calls tr) =
          [(0, py ''a@x.com'', py ''Hi Al Pha''), (2, py ''c@x.com'', py ''Hi Ga Ma'')])"
  using scenario_run [of bare_env scenario_config defaults]
  by (simp add: bare_env_def scenario_config_def py_def split: prod.splits)

section \<open>First names\<close>

text \<open>
  \<open>get_first_name\<close> raises exactly for the strings that are not empty and hold only
  whitespace; for any other string that is not empty it returns the first
  whitespace-delimited token. A value that went through \<open>clean_value\<close> is never of the
  first kind.
\<close>

lemma split_ws_acc_Nil_iff: "split_ws_acc acc s = [] \<longleftrightarrow> acc = [] \<and> list_all py_isspace s"
  by (induction s arbitrary: acc) auto

lemma list_all_dropWhile: "list_all P (dropWhile P xs) \<longleftrightarrow> list_all P xs"
  by (induction xs) auto

lemma list_all_strip: "list_all py_isspace (strip s) \<longleftrightarrow> list_all py_isspace s"
  by (simp add: strip_def list_all_dropWhile)

lemma strip_all_space: "list_all py_isspace s \<Longrightarrow> strip s = []"
proof -
  assume "list_all py_isspace s"
  then have d: "dropWhile py_isspace s = []" by (simp add: list_all_iff)
  show ?thesis unfolding strip_def d by simp
qed

lemma get_first_name_raises_iff:
  "get_first_name s = Inl e \<longleftrightarrow> e = IndexError \<and> s \<noteq> [] \<and> list_all py_isspace s"
proof -
  have "split_ws (strip s) = [] \<longleftrightarrow> list_all py_isspace s"
    by (simp add: split_ws_def split_ws_acc_Nil_iff list_all_strip)
  then show ?thesis
    by (auto simp: get_first_name_def split: list.splits)
qed





lemma get_first_name_clean_value: "\<exists>tok. get_first_name (clean_value v) = Inr tok"
proof (cases "get_first_name (clean_value v)")
  case (Inl e)
  then have ne: "clean_value v \<noteq> []" and sp: "list_all py_isspace (clean_value v)"
    by (simp_all add: get_first_name_raises_iff)
  from sp have "list_all py_isspace (replace [ZWSP] [] (replace [NBSP] [SPACE] v))"
    by (simp add: clean_value_def list_all_strip)
  then have "clean_value v = []" by (simp add: clean_value_def strip_all_space)
  with ne show ?thesis by simp
next
  case (Inr tok)
  then show ?thesis by blast
qed





section \<open>Rows without a usable address\<close>

text \<open>
  C7: \<open>clean_email_address\<close> returns \<open>None\<close> exactly when its input is missing or
  empty, or when the address part that \<open>parseaddr\<close> extracts from the cleaned string
  holds no \<open>@\<close>. For a row with such an address the loop goes on to the next row with
  the session state, the batch counter and the trace untouched: no transport call, no
  failure record, no change of any field.
\<close>

theorem invalid_address_skipped:
  "(clean_email_address pa raw = None \<longleftrightarrow>
      raw = None \<or> raw = Some [] \<or> (\<exists>s. raw = Some s \<and> AT \<notin> set (snd (pa (clean_value s))))) \<and>
   (0 \<le> idx \<and> idx < int (length df) \<and> \<not> stop_pressed E idx \<and> \<not> stop_sending st \<and>
    clean_email_address (parseaddr E) (map_of (df ! nat idx) (py ''email'')) = None \<longrightarrow>
    send_bulk_loop E C df idx n st = send_bulk_loop E C df (idx + 1) n st)"
proof
  show "clean_email_address pa raw = None \<longleftrightarrow>
      raw = None \<or> raw = Some [] \<or> (\<exists>s. raw = Some s \<and> AT \<notin> set (snd (pa (clean_value s))))"
    by (cases raw) (auto simp: clean_email_address_def Let_def)
next
  show "0 \<le> idx \<and> idx < int (length df) \<and> \<not> stop_pressed E idx \<and> \<not> stop_sending st \<and>
    clean_email_address (parseaddr E) (map_of (df ! nat idx) (py ''email'')) = None \<longrightarrow>
    send_bulk_loop E C df idx n st = send_bulk_loop E C df (idx + 1) n st"
  proof (intro impI, elim conjE)
    assume nn: "0 \<le> idx" and lt: "idx < int (length df)" and "\<not> stop_pressed E idx"
      and "\<not> stop_sending st"
      and "clean_email_address (parseaddr E) (map_of (df ! nat idx) (py ''email'')) = None"
    moreover from this have "process_row E C (int (length df)) idx n st (df ! nat idx) = Skipped"
      by (simp add: process_row_Skipped build_message_No_recipient)
    ultimately show "send_bulk_loop E C df idx n st = send_bulk_loop E C df (idx + 1) n st"
      by (simp add: send_bulk_loop_step iloc_nth)
  qed
qed

theorem invalid_address_skipped_witness:
  "clean_email_address (parseaddr bare_env) (Some (py ''bad'')) = None \<and>
   send_bulk_loop bare_env scenario_config scenario_table 1 0 defaults =
   send_bulk_loop bare_env scenario_config scenario_table 2 0 defaults"
  using invalid_address_skipped [of "parseaddr bare_env" "Some (py ''bad'')" 1 scenario_table
      bare_env defaults scenario_config 0]
  by (simp add: bare_env_def scenario_table_def defaults_def string_eval)

section \<open>Transport failures\<close>

text \<open>
  C4: when the transport raises for a row, the loop catches the exception: it reports
  the failure, appends the row with the error description to \<open>failed_rows\<close>, leaves
  \<open>sent_count\<close>, \<open>last_sent_index\<close> and the batch counter as they were, reports
  progress, sleeps, and continues with the next row.
\<close>

theorem transport_failure_recorded:
  assumes "0 \<le> idx" and "idx < int (length df)"
    and "\<not> stop_pressed E idx" and "\<not> stop_sending st"
    and "n < EMAILS_PER_BATCH"
    and "build_message E C (df ! nat idx) = Ready msg"
    and "smtp_send E idx msg = Some d"
  shows "send_bulk_loop E C df idx n st =
     emit [Smtp idx msg (Some d), St_error (py ''Failed: '' @ msg_to msg),
           Progress (idx + 1) (int (length df)), Sleep DELAY_BETWEEN_EMAILS]
       (send_bulk_loop E C df (idx + 1) n
          (st\<lparr>failed_rows := failed_rows st @ [AList.update (py ''__error'') d (df ! nat idx)]\<rparr>))"
  using assms
  by (simp add: send_bulk_loop_step iloc_nth process_row_def transport_def Let_def)

theorem transport_failure_recorded_witness:
  "smtp_send (fail_at 0) 0
     \<lparr>msg_from = (py ''Team'', py ''team@x.com''), msg_to = py ''a@x.com'',
      msg_subject = py ''Hi Al Pha'',
      msg_html = html_shell (P_OPEN @ py ''Hello Al'' @ P_CLOSE)\<rparr> = Some (py ''refused'') \<and>
   send_bulk_loop (fail_at 0) scenario_config scenario_table 0 0 defaults =
     emit [Smtp 0 \<lparr>msg_from = (py ''Team'', py ''team@x.com''), msg_to = py ''a@x.com'',
                   msg_subject = py ''Hi Al Pha'',
                   msg_html = html_shell (P_OPEN @ py ''Hello Al'' @ P_CLOSE)\<rparr>
             (Some (py ''refused'')),
           St_error (py ''Failed: a@x.com''), Progress 1 3, Sleep DELAY_BETWEEN_EMAILS]
       (send_bulk_loop (fail_at 0) scenario_config scenario_table 1 0
          (defaults\<lparr>failed_rows :=
             [[(py ''email'', py ''a@x.com''), (py ''name'', py ''Al Pha''),
               (py ''__error'', py ''refused'')]]\<rparr>))"
  using transport_failure_recorded [of 0 scenario_table "fail_at 0" defaults 0 scenario_config
      "\<lparr>msg_from = (py ''Team'', py ''team@x.com''), msg_to = py ''a@x.com'',
        msg_subject = py ''Hi Al Pha'',
        msg_html = html_shell (P_OPEN @ py ''Hello Al'' @ P_CLOSE)\<rparr>" "py ''refused''"]
  by (simp add: fail_at_def scenario_table_def scenario_config_def defaults_def
      build_message_def clean_email_address_def row_get_def EMAILS_PER_BATCH_def string_eval)

section \<open>Template errors\<close>

text \<open>
  C2 (as stated): a malformed template would be a failure of one row, recorded in
  \<open>failed_rows\<close>, after which the loop proceeds. Rendering stands before the
  \<open>try\<close>: with the subject template "Hi {name" the run over the scenario table ends
  at row 0 with the \<open>ValueError\<close>, nothing is recorded and no later row is reached.
\<close>

theorem unbalanced_template_counterexample:
  "run_send bare_env unbalanced_config scenario_table defaults = (Raised ValueError, defaults, [])"
  by (simp add: run_send_def press_send_def defaults_def scenario_table_def scenario_config_def
      unbalanced_config_def bare_env_def run_eval string_eval)

text \<open>
  C2 (amended): an error raised while rendering the subject or the body for a row with
  a usable address is not caught. It leaves \<open>send_bulk\<close> at that row: nothing is
  appended to \<open>failed_rows\<close>, the session state is as it was before the row, no
  transport call is made for the row, and no later row is processed.
\<close>

theorem render_error_aborts:
  assumes "0 \<le> idx" and "idx < int (length df)"
    and "\<not> stop_pressed E idx" and "\<not> stop_sending st"
    and "r = df ! nat idx"
    and "clean_email_address (parseaddr E) (map_of r (py ''email'')) = Some recip"
    and "safe_format (formatter E) (subject_tpl C) r = Inl e \<or>
         (\<exists>subject first. safe_format (formatter E) (subject_tpl C) r = Inr subject \<and>
            get_first_name (row_get r (py ''name'')) = Inr first \<and>
            safe_format (formatter E) (body_tpl C) (AList.update (py ''name'') first r) = Inl e)"
  shows "send_bulk_loop E C df idx n st = (Raised e, st, [])"
proof -
  have "build_message E C r = Render_error e"
    using assms(6,7) by (auto simp: build_message_def Let_def)
  then show ?thesis
    using assms(1-5) by (simp add: send_bulk_loop_step iloc_nth process_row_def)
qed

theorem render_error_aborts_witness:
  "safe_format (formatter bare_env) (subject_tpl unbalanced_config) (scenario_table ! 0) =
     Inl ValueError \<and>
   send_bulk_loop bare_env unbalanced_config scenario_table 0 0 defaults =
     (Raised ValueError, defaults, [])"
  using render_error_aborts [of 0 scenario_table bare_env defaults "scenario_table ! 0"
      "py ''a@x.com''" unbalanced_config ValueError 0]
  by (simp add: bare_env_def scenario_table_def defaults_def unbalanced_config_def
      scenario_config_def clean_email_address_def string_eval)

section \<open>Resume\<close>

text \<open>
  C3: if a pass over a table halts at the stop flag with \<open>last_sent_index = k\<close>, then
  Resume over the same table enters the loop at index \<open>k + 1\<close>, and every transport
  call of the resumed pass is for an index above \<open>k\<close>.
\<close>

theorem resume_after_stop:
  assumes "ending_of (send_bulk E1 C1 df r st0) = Stopped"
    and "st1 = state_of (send_bulk E1 C1 df r st0)"
    and "last_sent_index st1 = int k"
  shows "run_resume E2 C2 df st1 =
           send_bulk_loop E2 C2 df (int k + 1) 0 (st1\<lparr>resume_mode := True, stop_sending := False\<rparr>) \<and>
         list_all (\<lambda>(i, m, out). int k < i) (calls_of (run_resume E2 C2 df st1))"
proof -
  have eq: "run_resume E2 C2 df st1 =
      send_bulk_loop E2 C2 df (int k + 1) 0 (st1\<lparr>resume_mode := True, stop_sending := False\<rparr>)"
    using assms(3) by (simp add: run_resume_def press_resume_def send_bulk_def)
  have "list_all (call_ok E2 C2 df (int k + 1)) (calls_of (run_resume E2 C2 df st1))"
    unfolding eq using loop_calls by blast
  then have "list_all (\<lambda>(i, m, out). int k < i) (calls_of (run_resume E2 C2 df st1))"
    by (auto simp: list_all_iff call_ok_def)
  with eq show ?thesis by simp
qed

theorem resume_after_stop_witness:
  "ending_of (send_bulk (stop_at 1) scenario_config scenario_table False defaults) = Stopped \<and>
   last_sent_index (state_of (send_bulk (stop_at 1) scenario_config scenario_table False defaults)) = 0 \<and>
   list_all (\<lambda>(i, m, out). 0 < i)
     (calls_of (run_resume bare_env scenario_config scenario_table
        (state_of (send_bulk (stop_at 1) scenario_config scenario_table False defaults))))"
proof -
  have 1: "ending_of (send_bulk (stop_at 1) scenario_config scenario_table False defaults) = Stopped"
    by (simp add: stop_at_def scenario_table_def scenario_config_def defaults_def run_eval string_eval)
  have 2: "last_sent_index (state_of (send_bulk (stop_at 1) scenario_config scenario_table False defaults)) = int 0"
    by (simp add: stop_at_def scenario_table_def scenario_config_def defaults_def run_eval string_eval)
  have "list_all (\<lambda>(i, m, out). int 0 < i)
     (calls_of (run_resume bare_env scenario_config scenario_table
        (state_of (send_bulk (stop_at 1) scenario_config scenario_table False defaults))))"
    using resume_after_stop [OF 1 refl 2, of bare_env scenario_config] by (rule conjunct2)
  with 1 2 show ?thesis by simp
qed

section \<open>Batch pacing\<close>

text \<open>
  C5 (as stated): only five consecutive successful sends would trigger the cooldown.
  The counter is not reset by a failure: with six rows of which the third fails, the
  cooldown fires after the sixth call, though no five successes were consecutive.
\<close>

theorem cooldown_without_consecutive_counterexample:
  "map (\<lambda>(i, m, out). out)
     (calls_of (run_send (fail_at 2) scenario_config six_rows defaults)) =
     [None, None, Some (py ''refused''), None, None, None] \<and>
   Sleep BATCH_COOLDOWN \<in> set (trace_of (run_send (fail_at 2) scenario_config six_rows defaults))"
  by (simp add: run_send_def press_send_def defaults_def six_rows_def scenario_config_def
      fail_at_def run_eval string_eval)

text \<open>
  C5 (amended): within one call of \<open>send_bulk\<close> the cooldown occurs exactly after every
  fifth successful send counted since the start of the call or since the last cooldown,
  before any further transport call, and the count starts again at 0 when the cooldown
  fires; failed sends and skipped rows in between neither count nor reset the count.
\<close>

theorem batch_pacing:
  assumes "resume \<longrightarrow> - 1 \<le> last_sent_index st"
  shows "paced 0 (trace_of (send_bulk E C df resume st))"
proof (cases resume)
  case True
  then show ?thesis
    using assms loop_paced [of "last_sent_index st + 1" 0 E C df st]
    by (simp add: send_bulk_def EMAILS_PER_BATCH_def)
next
  case False
  then show ?thesis
    using loop_paced [of 0 0 E C df st] by (simp add: send_bulk_def EMAILS_PER_BATCH_def)
qed

theorem batch_pacing_witness:
  "paced 0 (trace_of (send_bulk (fail_at 2) scenario_config six_rows True defaults))"
  using batch_pacing [of True defaults "fail_at 2" scenario_config six_rows]
  by (simp add: defaults_def)

section \<open>Retry of the failed rows\<close>

text \<open>
  C6 (as stated): the retry would leave \<open>last_sent_index\<close> alone. The handler sets it
  to \<open>- 1\<close> and the loop then stores indices of the failed-rows table in it: after a
  send of six rows in which row 1 failed the cursor is 5, and after the retry it is 0.
\<close>

theorem retry_resets_cursor_counterexample:
  "last_sent_index (state_of (run_send (fail_at 1) scenario_config six_rows defaults)) = 5 \<and>
   last_sent_index
     (state_of (retry_failed bare_env scenario_config
        (state_of (run_send (fail_at 1) scenario_config six_rows defaults)))) = 0"
  by (simp add: retry_failed_def run_send_def press_send_def defaults_def six_rows_def
      scenario_config_def fail_at_def bare_env_def run_eval string_eval)

text \<open>
  C6 (amended): the retry calls the transport only for rows of the failed-rows
  collection as it is when the retry starts, in their order there and each with the
  message built from it, and when it completes it has called the transport for every
  such row with a usable address. It sets \<open>last_sent_index\<close> to \<open>- 1\<close> before the
  pass; afterwards \<open>last_sent_index\<close> is \<open>- 1\<close> or the position, in the failed-rows
  table, of the last row that was sent.
\<close>

theorem retry_failed_run:
  "list_all (call_ok E C (failed_rows st) 0) (calls_of (retry_failed E C st)) \<and>
   sorted_wrt (<) (map fst (calls_of (retry_failed E C st))) \<and>
   (ending_of (retry_failed E C st) = Completed \<longrightarrow>
      map fst (calls_of (retry_failed E C st)) =
        filter (\<lambda>i. clean_email_address (parseaddr E)
                       (map_of (failed_rows st ! nat i) (py ''email'')) \<noteq> None)
          [0..int (length (failed_rows st)) - 1]) \<and>
   (failed_rows st \<noteq> [] \<longrightarrow>
      last_sent_index (state_of (retry_failed E C st)) =
        last (- 1 # sent_indices (trace_of (retry_failed E C st))))"
proof (cases "failed_rows st = []")
  case True
  then show ?thesis by (simp add: retry_failed_def)
next
  case False
  define st1 where "st1 = st\<lparr>stop_sending := False, last_sent_index := - 1\<rparr>"
  have eq: "retry_failed E C st = send_bulk_loop E C (failed_rows st) 0 0 st1"
    using False by (simp add: retry_failed_def send_bulk_def st1_def)
  have "last_sent_index st1 = - 1" by (simp add: st1_def)
  then show ?thesis
    unfolding eq
    using loop_calls [of E C "failed_rows st" 0 0 st1]
      loop_completed_calls [of 0 E C "failed_rows st" 0 st1]
      loop_cursor [of E C "failed_rows st" 0 0 st1]
    by simp
qed

theorem retry_failed_run_witness:
  "ending_of (retry_failed bare_env scenario_config
      (state_of (run_send (fail_at 1) scenario_config six_rows defaults))) = Completed \<and>
   failed_rows (state_of (run_send (fail_at 1) scenario_config six_rows defaults)) =
     [[(py ''email'', py ''b@x.com''), (py ''__error'', py ''refused'')]] \<and>
   map fst (calls_of (retry_failed bare_env scenario_config
      (state_of (run_send (fail_at 1) scenario_config six_rows defaults)))) = [0] \<and>
   last_sent_index (state_of (retry_failed bare_env scenario_config
      (state_of (run_send (fail_at 1) scenario_config six_rows defaults)))) =
     last (- 1 # sent_indices (trace_of (retry_failed bare_env scenario_config
      (state_of (run_send (fail_at 1) scenario_config six_rows defaults)))))"
proof -
  have f: "failed_rows (state_of (run_send (fail_at 1) scenario_config six_rows defaults)) =
     [[(py ''email'', py ''b@x.com''), (py ''__error'', py ''refused'')]]"
    by (simp add: run_send_def press_send_def defaults_def six_rows_def
      scenario_config_def fail_at_def run_eval string_eval)
  have e: "ending_of (retry_failed bare_env scenario_config
      (state_of (run_send (fail_at 1) scenario_config six_rows defaults))) = Completed"
    by (simp add: retry_failed_def run_send_def press_send_def defaults_def six_rows_def
      scenario_config_def fail_at_def bare_env_def run_eval string_eval)
  have p: "clean_email_address (parseaddr bare_env) (Some (py ''b@x.com'')) \<noteq> None"
    by (simp add: bare_env_def clean_email_address_def string_eval)
  show ?thesis
    using retry_failed_run [of bare_env scenario_config
        "state_of (run_send (fail_at 1) scenario_config six_rows defaults)"] e p
    unfolding f by (simp add: py_def)
qed

section \<open>Templates\<close>

text \<open>
  The formatter reads the written form of a template piece by piece: the text of a
  literal piece comes out as it is, a placeholder with a plain key comes out as the
  value the mapping gives.
\<close>

lemma prepend_prepend: "prepend a (prepend b r) = prepend (a @ b) r"
  by (cases r) simp_all

lemma prepend_Nil: "prepend [] r = r"
  by (cases r) simp_all

lemma format_literal_escape:
  "format_literal L lookup (escape_braces s @ rest) = prepend s (format_literal L lookup rest)"
proof (induction s)
  case Nil
  show ?case by (simp add: prepend_Nil)
next
  case (Cons c cs)
  show ?case
  proof (cases "c = LBRACE \<or> c = RBRACE")
    case True
    then show ?thesis using Cons by (auto simp: prepend_prepend)
  next
    case False
    show ?thesis
    proof (cases "escape_braces cs @ rest")
      case Nil
      then have "cs = []" "rest = []" by (cases cs; simp split: if_splits)+
      then show ?thesis using False by simp
    next
      case (Cons d ds)
      then show ?thesis using False Cons.IH by (simp add: prepend_prepend)
    qed
  qed
qed

lemma format_field_close:
  "format_field L lookup name (RBRACE # rest) =
     (case render_field L lookup name None [] of
        Inl e \<Rightarrow> Inl e
      | Inr v \<Rightarrow> prepend v (format_literal L lookup rest))"
  by simp

lemma format_field_step:
  "c \<notin> {LBRACE, RBRACE, LBRACKET, DOT, COLON, BANG} \<Longrightarrow>
   format_field L lookup name (c # cs) = format_field L lookup (name @ [c]) cs"
  by simp

lemma format_field_plain:
  "list_all (\<lambda>c. c \<notin> {LBRACE, RBRACE, LBRACKET, DOT, COLON, BANG}) k \<Longrightarrow>
   format_field L lookup acc (k @ RBRACE # rest) =
     (case render_field L lookup (acc @ k) None [] of
        Inl e \<Rightarrow> Inl e
      | Inr v \<Rightarrow> prepend v (format_literal L lookup rest))"
  by (induction k arbitrary: acc) simp_all

lemma render_field_plain: "plain_key L k \<Longrightarrow> render_field L lookup k None [] = Inr (lookup k)"
  by (auto simp: plain_key_def render_field_def field_value_def list_all_iff)

lemma format_literal_field:
  assumes "plain_key L k"
  shows "format_literal L lookup (LBRACE # k @ RBRACE # rest) =
           prepend (lookup k) (format_literal L lookup rest)"
proof -
  from assms obtain d ds where k: "k = d # ds" and d: "d \<noteq> LBRACE"
    by (cases k) (auto simp: plain_key_def)
  have "format_literal L lookup (LBRACE # k @ RBRACE # rest) =
      format_field L lookup [] (k @ RBRACE # rest)"
    using k d by simp
  also have "\<dots> = prepend (lookup k) (format_literal L lookup rest)"
    using assms format_field_plain [of k L lookup "[]" rest] render_field_plain [OF assms, of lookup]
    by (simp add: plain_key_def)
  finally show ?thesis .
qed

lemma format_literal_show_template_append:
  "list_all (plain_piece L) ps \<Longrightarrow>
   format_literal L (defaultdict_str mapping) (show_template ps @ rest) =
     prepend (fill mapping ps) (format_literal L (defaultdict_str mapping) rest)"
proof (induction ps)
  case Nil
  show ?case by (simp add: prepend_Nil)
next
  case (Cons p ps)
  then show ?case
    by (cases p)
       (simp_all add: format_literal_escape format_literal_field defaultdict_str_def
          prepend_prepend)
qed

lemma format_literal_show_template:
  "list_all (plain_piece L) ps \<Longrightarrow>
   format_literal L (defaultdict_str mapping) (show_template ps) = Inr (fill mapping ps)"
  using format_literal_show_template_append [of L ps mapping "[]"] by simp

text \<open>
  C8 (as stated): every \<open>{key}\<close> placeholder would be replaced by the mapping's value.
  A key that is a decimal number makes the field positional, and \<open>format_map\<close>
  refuses positional fields: with the template "Hi {0}" and the mapping that gives "Al"
  for the key "0", \<open>safe_format\<close> raises \<open>ValueError\<close>.
\<close>

theorem numeric_key_counterexample:
  "safe_format ascii_formatter (py ''Hi {0}'') [(py ''0'', py ''Al'')] = Inl ValueError"
  by (simp add: string_eval)

text \<open>
  C8 (amended): for every template made of literal text and \<open>{key}\<close> placeholders
  whose keys are plain (not empty, not a decimal number, without a character of the
  format syntax), and for every mapping, \<open>safe_format\<close> returns the text with each
  placeholder replaced by the mapping's value for its key, and by the empty string when
  the key is absent; it does not raise. In particular \<open>safe_format("Hi {name}", {})\<close>
  is \<open>"Hi "\<close>.
\<close>

theorem safe_format_fills:
  "(list_all (plain_piece L) ps \<longrightarrow>
      safe_format L (show_template ps) mapping = Inr (fill mapping ps)) \<and>
   safe_format L (py ''Hi {name}'') [] = Inr (py ''Hi '')"
  by (simp add: format_literal_show_template safe_format_def format_map_def)
     (simp add: string_eval)

theorem safe_format_fills_witness:
  "list_all (plain_piece ascii_formatter)
     [Text (py ''Dear ''), Field (py ''name''), Text (py '', your code: ''), Field (py ''code'')] \<and>
   safe_format ascii_formatter (py ''Dear {name}, your code: {code}'') [(py ''name'', py ''Al'')] =
     Inr (py ''Dear Al, your code: '')"
  using safe_format_fills [of ascii_formatter
      "[Text (py ''Dear ''), Field (py ''name''), Text (py '', your code: ''), Field (py ''code'')]"
      "[(py ''name'', py ''Al'')]"]
  by (simp add: plain_key_def decimal_def ascii_digit_def py_def)

text \<open>
  A brace that opens a field and is not closed makes \<open>safe_format\<close> raise, whatever
  the mapping.
\<close>

lemma format_spec_unclosed:
  "RBRACE \<notin> set k \<Longrightarrow> \<exists>e. format_spec L lookup name conv spec depth k = Inl e"
  by (induction k arbitrary: spec depth) auto

lemma format_field_unclosed:
  "RBRACE \<notin> set k \<Longrightarrow>
   (\<exists>e. format_field L lookup acc k = Inl e) \<and> (\<exists>e. format_bracket L lookup acc k = Inl e)"
proof (induction k arbitrary: acc)
  case Nil
  show ?case by simp
next
  case (Cons c k)
  then have k: "RBRACE \<notin> set k" and c: "c \<noteq> RBRACE" by auto
  have b: "\<exists>e. format_bracket L lookup acc (c # k) = Inl e"
    using Cons.IH [OF k] by simp
  have s1: "\<exists>e. format_spec L lookup acc None [] 0 k = Inl e"
    using k by (rule format_spec_unclosed)
  have s2: "\<exists>e. format_spec L lookup acc (Some conv) [] 0 xs = Inl e \<and> x \<noteq> RBRACE"
    if "k = conv # x # xs" for conv x xs
    using k that format_spec_unclosed [of xs L lookup acc "Some conv" "[]" 0] by simp
  have f: "\<exists>e. format_field L lookup acc (c # k) = Inl e"
  proof (cases "c = BANG")
    case True
    show ?thesis
    proof (cases k)
      case Nil
      then show ?thesis using True by simp
    next
      case (Cons conv ks)
      show ?thesis
      proof (cases ks)
        case Nil
        then show ?thesis using True Cons by simp
      next
        case (Cons x xs)
        then show ?thesis using True \<open>k = conv # ks\<close> s2 [of conv x xs] by auto
      qed
    qed
  next
    case False
    then show ?thesis using c Cons.IH [OF k] s1 by auto
  qed
  from f b show ?case by blast
qed

lemma unclosed_brace_raises:
  assumes "list_all (plain_piece L) ps" and "RBRACE \<notin> set k" and "k = [] \<or> hd k \<noteq> LBRACE"
  shows "\<exists>e. safe_format L (show_template ps @ LBRACE # k) mapping = Inl e"
proof -
  have "\<exists>e. format_literal L (defaultdict_str mapping) (LBRACE # k) = Inl e"
  proof (cases k)
    case Nil
    then show ?thesis by simp
  next
    case (Cons d ds)
    then have "format_literal L (defaultdict_str mapping) (LBRACE # k) =
        format_field L (defaultdict_str mapping) [] k"
      using assms(3) by simp
    then show ?thesis using format_field_unclosed [OF assms(2)] by simp
  qed
  then obtain e where "format_literal L (defaultdict_str mapping) (LBRACE # k) = Inl e" ..
  then show ?thesis
    using format_literal_show_template_append [OF assms(1), of mapping "LBRACE # k"]
    by (simp add: safe_format_def format_map_def)
qed

section \<open>The message formatter\<close>

text \<open>
  The two replacements at the head of \<open>text_to_html\<close> normalise the line endings,
  \<open>html.escape\<close> works character by character, and splitting loses nothing and leaves
  no blank-line boundary inside a paragraph.
\<close>

lemma replace_single:
  "replace [c] new s = concat (map (\<lambda>x. if x = c then new else [x]) s)"
  by (induction s) simp_all

lemma normalize_newlines_replace:
  "replace [CR] [LF] (replace [CR, LF] [LF] t) = normalize_newlines t"
  by (induction t rule: normalize_newlines.induct) (simp_all add: replace_single)

lemma concat_map_concat_map:
  "concat (map g (concat (map f s))) = concat (map (\<lambda>x. concat (map g (f x))) s)"
  by (induction s) simp_all

lemma html_escape_chars: "html_escape s = concat (map html_escape_char s)"
proof -
  have "concat (map (\<lambda>x. if x = SQUOTE then py ''&#x27;'' else [x])
          (concat (map (\<lambda>x. if x = DQUOTE then py ''&quot;'' else [x])
            (concat (map (\<lambda>x. if x = GT then py ''&gt;'' else [x])
              (concat (map (\<lambda>x. if x = LT then py ''&lt;'' else [x])
                (if c = AMP then py ''&amp;'' else [c])))))))) = html_escape_char c" for c
    by (simp add: html_escape_char_def py_def)
  then show ?thesis
    by (simp add: html_escape_def replace_single concat_map_concat_map)
qed

lemma split_acc_nonempty: "split_acc sep acc s \<noteq> []"
  by (induction sep acc s rule: split_acc.induct) simp_all

lemma join_Cons: "ps \<noteq> [] \<Longrightarrow> join sep (p # ps) = p @ sep @ join sep ps"
  by (cases ps) simp_all

lemma join_split_acc: "join sep (split_acc sep acc s) = acc @ s"
proof (induction sep acc s rule: split_acc.induct)
  case (1 sep acc)
  show ?case by simp
next
  case (2 sep acc c cs)
  show ?case
  proof (cases "sep \<noteq> [] \<and> take (length sep) (c # cs) = sep")
    case True
    then have "join sep (split_acc sep acc (c # cs)) =
        acc @ sep @ join sep (split_acc sep [] (drop (length sep) (c # cs)))"
      by (simp add: join_Cons split_acc_nonempty)
    also have "\<dots> = acc @ take (length sep) (c # cs) @ drop (length sep) (c # cs)"
      using True 2(1) by simp
    finally show ?thesis by (simp only: append_take_drop_id)
  next
    case False
    then show ?thesis using 2(2) by auto
  qed
qed

lemma html_escape_char_no_markup:
  "set (html_escape_char c) \<inter> {LT, GT, DQUOTE, SQUOTE} = {}"
  by (simp add: html_escape_char_def py_def)

lemma normalize_newlines_no_CR: "CR \<notin> set (normalize_newlines t)"
  by (induction t rule: normalize_newlines.induct) simp_all

lemma has_blank_line_snoc:
  "has_blank_line (acc @ [c]) \<longleftrightarrow> has_blank_line acc \<or> (acc \<noteq> [] \<and> last acc = LF \<and> c = LF)"
  by (induction acc rule: has_blank_line.induct) auto

lemma split_acc_no_blank_line:
  assumes "\<not> has_blank_line acc"
    and "acc \<noteq> [] \<and> last acc = LF \<longrightarrow> s = [] \<or> hd s \<noteq> LF"
  shows "list_all (\<lambda>p. \<not> has_blank_line p) (split_acc [LF, LF] acc s)"
  using assms
proof (induction "length s" arbitrary: s acc rule: less_induct)
  case less
  show ?case
  proof (cases s)
    case Nil
    then show ?thesis using less.prems by simp
  next
    case (Cons c cs)
    show ?thesis
    proof (cases "take 2 (c # cs) = [LF, LF]")
      case True
      have "list_all (\<lambda>p. \<not> has_blank_line p) (split_acc [LF, LF] [] (drop 2 (c # cs)))"
        by (rule less.hyps) (simp_all add: Cons)
      then show ?thesis using True Cons less.prems by simp
    next
      case False
      have "\<not> has_blank_line (acc @ [c])"
        using less.prems Cons by (auto simp: has_blank_line_snoc)
      moreover have "acc @ [c] \<noteq> [] \<and> last (acc @ [c]) = LF \<longrightarrow> cs = [] \<or> hd cs \<noteq> LF"
        using False by (cases cs) auto
      ultimately have "list_all (\<lambda>p. \<not> has_blank_line p) (split_acc [LF, LF] (acc @ [c]) cs)"
        by (intro less.hyps) (simp_all add: Cons)
      then show ?thesis using False Cons by auto
    qed
  qed
qed

lemma escaped_no_markup:
  "CR \<notin> set s \<Longrightarrow>
   set (concat (map html_escape_char s)) \<inter> {LT, GT, DQUOTE, SQUOTE, CR} = {}"
proof (induction s)
  case Nil
  show ?case by simp
next
  case (Cons c cs)
  then have "c \<noteq> CR" by simp
  then have "set (html_escape_char c) \<inter> {LT, GT, DQUOTE, SQUOTE, CR} = {}"
    by (simp add: html_escape_char_def py_def)
  then show ?case using Cons by (simp add: Int_Un_distrib2)
qed

text \<open>
  C9: for every input, \<open>text_to_html\<close> is the sequence of paragraph blocks of the
  text with normalised line endings and escaped characters: the text is split at the
  blank-line boundaries, each paragraph stands between
  \<open><p style='margin:0 0 16px 0; line-height:1.6;'>\<close> and \<open></p>\<close>, and in each
  paragraph every newline becomes \<open><br>\<close>. The normalised text holds no \<open>\\r\<close>; the
  escaped text holds no \<open><\<close>, \<open>>\<close> or quote, so the only markup of the output is the
  generated one; the paragraphs joined by blank lines give the escaped text back, and
  none of them holds a blank-line boundary. "Hello\\n\\nWorld" gives two blocks,
  "Hello\\nWorld" one block with a \<open><br>\<close>, and "<script>" comes out as
  "&lt;script&gt;".
\<close>

theorem text_to_html_structure:
  "(let p_open = py ''<p style='' @ [SQUOTE] @ py ''margin:0 0 16px 0; line-height:1.6;'' @
                 [SQUOTE] @ py ''>'';
        p_close = py ''</p>'';
        br = py ''<br>''
    in text_to_html t =
         concat (map (\<lambda>para. p_open @ concat (map (\<lambda>c. if c = LF then br else [c]) para) @ p_close)
           (split_sep (concat (map html_escape_char (normalize_newlines t))) [LF, LF])) \<and>
       text_to_html (py ''Hello'' @ [LF, LF] @ py ''World'') =
         p_open @ py ''Hello'' @ p_close @ p_open @ py ''World'' @ p_close \<and>
       text_to_html (py ''Hello'' @ [LF] @ py ''World'') =
         p_open @ py ''Hello<br>World'' @ p_close \<and>
       text_to_html (py ''<script>'') = p_open @ py ''&lt;script&gt;'' @ p_close) \<and>
   CR \<notin> set (normalize_newlines t) \<and>
   set (concat (map html_escape_char (normalize_newlines t))) \<inter> {LT, GT, DQUOTE, SQUOTE, CR} = {} \<and>
   join [LF, LF] (split_sep (concat (map html_escape_char (normalize_newlines t))) [LF, LF]) =
     concat (map html_escape_char (normalize_newlines t)) \<and>
   list_all (\<lambda>para. \<not> has_blank_line para)
     (split_sep (concat (map html_escape_char (normalize_newlines t))) [LF, LF])"
proof (intro conjI)
  show "let p_open = py ''<p style='' @ [SQUOTE] @ py ''margin:0 0 16px 0; line-height:1.6;'' @
                 [SQUOTE] @ py ''>'';
        p_close = py ''</p>'';
        br = py ''<br>''
    in text_to_html t =
         concat (map (\<lambda>para. p_open @ concat (map (\<lambda>c. if c = LF then br else [c]) para) @ p_close)
           (split_sep (concat (map html_escape_char (normalize_newlines t))) [LF, LF])) \<and>
       text_to_html (py ''Hello'' @ [LF, LF] @ py ''World'') =
         p_open @ py ''Hello'' @ p_close @ p_open @ py ''World'' @ p_close \<and>
       text_to_html (py ''Hello'' @ [LF] @ py ''World'') =
         p_open @ py ''Hello<br>World'' @ p_close \<and>
       text_to_html (py ''<script>'') = p_open @ py ''&lt;script&gt;'' @ p_close"
    unfolding Let_def
  proof (intro conjI)
    show "text_to_html t =
       concat (map (\<lambda>para. (py ''<p style='' @ [SQUOTE] @ py ''margin:0 0 16px 0; line-height:1.6;'' @
                 [SQUOTE] @ py ''>'') @
               concat (map (\<lambda>c. if c = LF then py ''<br>'' else [c]) para) @ py ''</p>'')
         (split_sep (concat (map html_escape_char (normalize_newlines t))) [LF, LF]))"
      unfolding text_to_html_def Let_def normalize_newlines_replace html_escape_chars
      by (simp add: replace_single P_OPEN_def P_CLOSE_def BR_def)
  qed (simp_all add: string_eval)
  show "CR \<notin> set (normalize_newlines t)"
    by (rule normalize_newlines_no_CR)
  show "set (concat (map html_escape_char (normalize_newlines t))) \<inter> {LT, GT, DQUOTE, SQUOTE, CR} = {}"
    by (rule escaped_no_markup) (rule normalize_newlines_no_CR)
  show "join [LF, LF] (split_sep (concat (map html_escape_char (normalize_newlines t))) [LF, LF]) =
     concat (map html_escape_char (normalize_newlines t))"
    by (simp add: split_sep_def join_split_acc)
  show "list_all (\<lambda>para. \<not> has_blank_line para)
     (split_sep (concat (map html_escape_char (normalize_newlines t))) [LF, LF])"
    unfolding split_sep_def by (rule split_acc_no_blank_line) simp_all
qed

theorem text_to_html_structure_witness:
  "text_to_html (py ''a<b'' @ [CR, LF] @ py ''c'' @ [CR, CR] @ py ''d&e'') =
     py ''<p style='' @ [SQUOTE] @ py ''margin:0 0 16px 0; line-height:1.6;'' @ [SQUOTE] @
     py ''>a&lt;b<br>c</p><p style='' @ [SQUOTE] @ py ''margin:0 0 16px 0; line-height:1.6;'' @
     [SQUOTE] @ py ''>d&amp;e</p>''"
  using text_to_html_structure [of "py ''a<b'' @ [CR, LF] @ py ''c'' @ [CR, CR] @ py ''d&e''"]
  by (simp add: Let_def py_def html_escape_char_def split_sep_def)

end
